theory Spec2Isabelle
  imports Complex_Main
begin

section \<open>Cube Collector: the evasion engine and the population controller\<close>

text \<open>
  A shallow embedding of the latest revision of \<^verbatim>\<open>game.js\<close> (the one with the modules
  7.1 to 7.11, the health bar and the time-based cap). JavaScript numbers are modelled as
  \<^typ>\<open>real\<close>, with one exception: in the speed clamp of \<^verbatim>\<open>aiIntegrate\<close>, where a stored
  number is held against a bound, every operation is rounded as binary64 arithmetic rounds
  it. Infinities and NaN are outside the model. The globals of the script
  (\<^verbatim>\<open>player\<close>, \<^verbatim>\<open>targets\<close>, \<^verbatim>\<open>score\<close>, \<^verbatim>\<open>hp\<close>, \<^verbatim>\<open>alive\<close>, \<^verbatim>\<open>elapsed\<close>, \<^verbatim>\<open>_SECT\<close>, \<^verbatim>\<open>_HEAT\<close>)
  are the fields of one state record that every function takes and returns. What the script
  reads from the browser is an input record: the canvas size, the keys held, the clock and the
  sequence of values that \<^verbatim>\<open>Math.random()\<close> returns; the state counts how many of them have been
  drawn. The clock \<^verbatim>\<open>performance.now()\<close> is one value for the whole frame. Fields of a
  rectangle carry the prefix \<open>r_\<close>, of a target \<open>t_\<close>, of the player \<open>p_\<close>, of the
  steering accumulator \<open>b_\<close>.
\<close>

subsection \<open>MODULE 1: Config\<close>

text \<open>The knobs of \<^verbatim>\<open>CFG\<close> that this revision reads.\<close>

record config =
  PLAYER_SIZE :: real
  PLAYER_SPEED :: real
  TARGET_SIZE :: real
  TARGET_MAX_SPEED :: real
  TARGET_MAX_ACCEL :: real
  HEALTH_MAX :: real
  HEALTH_DECAY_PER_SEC :: real
  HEALTH_REFILL_ON_CLEAR :: real
  TIME_STEP_SEC :: real

definition CFG :: config where
  "CFG = \<lparr> PLAYER_SIZE = 24, PLAYER_SPEED = 240, TARGET_SIZE = 24,
           TARGET_MAX_SPEED = 220, TARGET_MAX_ACCEL = 600,
           HEALTH_MAX = 100, HEALTH_DECAY_PER_SEC = 8, HEALTH_REFILL_ON_CLEAR = 100,
           TIME_STEP_SEC = 30 \<rparr>"

subsection \<open>MODULE 3: State, and the inputs of a frame\<close>

datatype key = K_up | K_down | K_left | K_right | K_space

record env =
  canvas_width :: real
  canvas_height :: real
  keys :: "key set"
  now :: real
  random :: "nat \<Rightarrow> real"

record rect =
  r_x :: real
  r_y :: real
  r_w :: real
  r_h :: real

record ai_state =
  wanderTimer :: real
  wanderPhase :: real
  lastSteerX :: real
  lastSteerY :: real
  jukeTime :: real
  jukeCool :: real
  jukeDirX :: real
  jukeDirY :: real
  patrolTime :: real
  patrolCool :: real
  patrolDirX :: real
  patrolDirY :: real
  sectorIndex :: "nat option"

record target = rect +
  t_vx :: real
  t_vy :: real
  t_ai :: "ai_state option"

record player_rect = rect +
  p_speed :: real

record heat =
  grid :: "real list option"
  cols :: int
  rows :: int
  lastW :: real
  lastH :: real

record game =
  player :: player_rect
  score :: nat
  hp :: real
  alive :: bool
  elapsed :: real
  targets :: "target list"
  SECT_assigned :: bool
  SECT_t0 :: real
  HEAT :: heat
  rng :: nat

subsection \<open>MODULE 4: Input\<close>

definition hypot :: "real \<Rightarrow> real \<Rightarrow> real" where
  "hypot a b = sqrt (a\<^sup>2 + b\<^sup>2)"

text \<open>\<^verbatim>\<open>v || 1\<close> on a number: 1 when \<open>v\<close> is zero.\<close>

definition or1 :: "real \<Rightarrow> real" where
  "or1 v = (if v = 0 then 1 else v)"

definition readInput :: "env \<Rightarrow> real \<times> real" where
  "readInput e =
    (let dy = (if K_up \<in> keys e then - 1 else 0) + (if K_down \<in> keys e then 1 else 0);
         dx = (if K_left \<in> keys e then - 1 else 0) + (if K_right \<in> keys e then 1 else 0)
     in if dx \<noteq> 0 \<or> dy \<noteq> 0
        then (let l = or1 (hypot dx dy) in (dx / l, dy / l))
        else (dx, dy))"

subsection \<open>MODULE 5: Helpers\<close>

definition clamp :: "real \<Rightarrow> real \<Rightarrow> real \<Rightarrow> real" where
  "clamp v lo hi = max lo (min hi v)"

definition rectsOverlap :: "'a rect_scheme \<Rightarrow> 'b rect_scheme \<Rightarrow> bool" where
  "rectsOverlap a b \<longleftrightarrow>
     r_x a < r_x b + r_w b \<and> r_x a + r_w a > r_x b \<and>
     r_y a < r_y b + r_h b \<and> r_y a + r_h a > r_y b"

definition len :: "real \<Rightarrow> real \<Rightarrow> real" where
  "len a b = or1 (hypot a b)"

definition norm_xy :: "real \<Rightarrow> real \<Rightarrow> real \<times> real" where
  "norm_xy a b = (let l = len a b in (a / l, b / l))"

subsection \<open>MODULE 6: Spawning and the time-based cap\<close>

text \<open>\<^verbatim>\<open>makeTarget\<close> draws two random numbers, for \<open>x\<close> first; \<open>n\<close> counts the draws so far.\<close>

definition makeTarget :: "config \<Rightarrow> env \<Rightarrow> nat \<Rightarrow> target \<times> nat" where
  "makeTarget cfg e n =
    (\<lparr> r_x = random e n * (canvas_width e - TARGET_SIZE cfg),
       r_y = random e (Suc n) * (canvas_height e - TARGET_SIZE cfg),
       r_w = TARGET_SIZE cfg, r_h = TARGET_SIZE cfg,
       t_vx = 0, t_vy = 0, t_ai = None \<rparr>, n + 2)"

definition fallbackTarget :: "config \<Rightarrow> env \<Rightarrow> target" where
  "fallbackTarget cfg e =
     \<lparr> r_x = canvas_width e - TARGET_SIZE cfg - 10,
       r_y = canvas_height e - TARGET_SIZE cfg - 10,
       r_w = TARGET_SIZE cfg, r_h = TARGET_SIZE cfg,
       t_vx = 0, t_vy = 0, t_ai = None \<rparr>"

text \<open>The \<^verbatim>\<open>for\<close> loop of \<^verbatim>\<open>spawnAvoidingPlayer\<close>, by the number of attempts left.\<close>

fun spawnTry :: "config \<Rightarrow> env \<Rightarrow> player_rect \<Rightarrow> nat \<Rightarrow> nat \<Rightarrow> target \<times> nat" where
  "spawnTry cfg e p 0 n = (fallbackTarget cfg e, n)"
| "spawnTry cfg e p (Suc k) n =
     (if \<not> rectsOverlap p (fst (makeTarget cfg e n)) then makeTarget cfg e n
      else spawnTry cfg e p k (snd (makeTarget cfg e n)))"

definition spawnAvoidingPlayer :: "config \<Rightarrow> env \<Rightarrow> player_rect \<Rightarrow> nat \<Rightarrow> target \<times> nat" where
  "spawnAvoidingPlayer cfg e p n = spawnTry cfg e p 20 n"

text \<open>
  \<^verbatim>\<open>1 + Math.floor(elapsed / CFG.TIME_STEP_SEC)\<close>. The step is 30 in \<^verbatim>\<open>CFG\<close>; with a step of 0
  the quotient is an infinity or NaN in JavaScript, which the model does not have, so what is
  proved about the cap and the refill is for a positive step.
\<close>

definition targetCap :: "config \<Rightarrow> game \<Rightarrow> int" where
  "targetCap cfg g = 1 + \<lfloor>elapsed g / TIME_STEP_SEC cfg\<rfloor>"

text \<open>
  \<^verbatim>\<open>while (targets.length < cap) targets.push(spawnAvoidingPlayer());\<close> with \<open>cap\<close> read once
  before the loop, as \<^verbatim>\<open>restart\<close> and \<^verbatim>\<open>update\<close> have it.
\<close>

function fillToCap :: "config \<Rightarrow> env \<Rightarrow> int \<Rightarrow> game \<Rightarrow> game" where
  "fillToCap cfg e cap g =
     (if int (length (targets g)) < cap
      then fillToCap cfg e cap
             (g\<lparr> targets := targets g @ [fst (spawnAvoidingPlayer cfg e (player g) (rng g))],
                 rng := snd (spawnAvoidingPlayer cfg e (player g) (rng g)) \<rparr>)
      else g)"
  by pat_completeness auto
termination
  by (relation "measure (\<lambda>(cfg, e, cap, g). nat (cap - int (length (targets g))))") auto

declare fillToCap.simps [simp del]

subsection \<open>MODULE 7.1: AI_CFG\<close>

record ai_config =
  SEP_RADIUS :: real
  SEP_FORCE :: real
  ORBIT_DIST :: real
  ORBIT_FORCE :: real
  WALL_REPEL_MARGIN :: real
  SLIDE_FORCE :: real
  JUKE_CLOSE_DIST :: real
  JUKE_TRIGGER_ANGLE :: real
  JUKE_COOLDOWN :: real
  JUKE_DURATION :: real
  JUKE_PUSH :: real
  CORNER_NEAR_EDGE :: real
  PATROL_COOLDOWN :: real
  PATROL_TIME :: real
  PATROL_PUSH :: real
  SAFE_BAND :: real
  WANDER_T :: real
  WANDER_MAG_FAR :: real
  WANDER_MAG_NEAR :: real
  PANIC_SPEED_UP :: real
  JITTER :: real
  SMOOTH :: real
  LEAD :: real

definition AI_CFG :: ai_config where
  "AI_CFG = \<lparr> SEP_RADIUS = 90, SEP_FORCE = 9 / 10,
     ORBIT_DIST = 260, ORBIT_FORCE = 85 / 100,
     WALL_REPEL_MARGIN = 60, SLIDE_FORCE = 115 / 100,
     JUKE_CLOSE_DIST = 190, JUKE_TRIGGER_ANGLE = 85 / 100, JUKE_COOLDOWN = 11 / 10,
     JUKE_DURATION = 14 / 100, JUKE_PUSH = 165 / 100,
     CORNER_NEAR_EDGE = 12, PATROL_COOLDOWN = 16 / 10, PATROL_TIME = 1 / 2,
     PATROL_PUSH = 9 / 10, SAFE_BAND = 120,
     WANDER_T = 9 / 10, WANDER_MAG_FAR = 8 / 10, WANDER_MAG_NEAR = 35 / 100,
     PANIC_SPEED_UP = 112 / 100, JITTER = 28 / 100, SMOOTH = 6 / 10, LEAD = 22 / 100 \<rparr>"

subsection \<open>MODULE 7.8: DIFFICULTY_PROFILES\<close>

text \<open>
  The knobs of \<^verbatim>\<open>AI_PROFILE\<close> that the code reads. \<^verbatim>\<open>HEATMAP_CELL|0\<close> is the integer 80.
\<close>

record ai_profile =
  HEATMAP_BIAS :: real
  SECTOR_STICK :: real
  DISPERSION_MIN_SPACING :: real
  DISPERSION_EDGE_FAN :: real
  HEATMAP_CELL :: int
  HEATMAP_DECAY :: real
  HEATMAP_PLAYER_STAMP :: real
  SECTOR_RING_RATIO :: real
  SECTOR_ROT_SPEED :: real

definition AI_PROFILE :: ai_profile where
  "AI_PROFILE = \<lparr> HEATMAP_BIAS = 75 / 100, SECTOR_STICK = 55 / 100,
     DISPERSION_MIN_SPACING = 110, DISPERSION_EDGE_FAN = 9 / 10,
     HEATMAP_CELL = 80, HEATMAP_DECAY = 94 / 100, HEATMAP_PLAYER_STAMP = 26 / 10,
     SECTOR_RING_RATIO = 34 / 100, SECTOR_ROT_SPEED = 6 / 100 \<rparr>"

subsection \<open>MODULE 7.2: AI_STATE\<close>

definition aiInit :: "env \<Rightarrow> target \<Rightarrow> nat \<Rightarrow> target \<times> nat" where
  "aiInit e t n =
    (case t_ai t of
       Some s \<Rightarrow> (t, n)
     | None \<Rightarrow>
        (t\<lparr> t_ai := Some \<lparr> wanderTimer = random e n * WANDER_T AI_CFG,
                            wanderPhase = random e (Suc n) * pi * 2,
                            lastSteerX = 0, lastSteerY = 0,
                            jukeTime = 0, jukeCool = 0, jukeDirX = 0, jukeDirY = 0,
                            patrolTime = 0, patrolCool = 0, patrolDirX = 0, patrolDirY = 0,
                            sectorIndex = None \<rparr> \<rparr>, n + 2))"

record pred =
  pr_px :: real
  pr_py :: real
  pr_hx :: real
  pr_hy :: real
  pr_hv :: real

definition aiPredictPlayer :: "env \<Rightarrow> player_rect \<Rightarrow> pred" where
  "aiPredictPlayer e p =
    (let (dx, dy) = readInput e
     in \<lparr> pr_px = (r_x p + r_w p / 2) + dx * p_speed p * LEAD AI_CFG,
           pr_py = (r_y p + r_h p / 2) + dy * p_speed p * LEAD AI_CFG,
           pr_hx = dx, pr_hy = dy, pr_hv = hypot dx dy \<rparr>)"

record edges =
  edge_L :: bool
  edge_R :: bool
  edge_T :: bool
  edge_B :: bool
  inCorner :: bool

definition aiNearEdges :: "env \<Rightarrow> target \<Rightarrow> edges" where
  "aiNearEdges e t =
    (let L = r_x t < CORNER_NEAR_EDGE AI_CFG;
         R = r_x t > canvas_width e - r_w t - CORNER_NEAR_EDGE AI_CFG;
         T = r_y t < CORNER_NEAR_EDGE AI_CFG;
         B = r_y t > canvas_height e - r_h t - CORNER_NEAR_EDGE AI_CFG
     in \<lparr> edge_L = L, edge_R = R, edge_T = T, edge_B = B,
           inCorner = ((L \<or> R) \<and> (T \<or> B)) \<rparr>)"

subsection \<open>MODULE 7.3: AI_STEER_BASE\<close>

record base =
  b_sx :: real
  b_sy :: real
  b_d :: real
  b_cx :: real
  b_cy :: real

text \<open>
  One round of the separation loop, for the other target \<open>ot\<close>. The loop runs over the
  whole array \<^verbatim>\<open>targets\<close> as it is when the call is made and skips the target being steered
  (\<^verbatim>\<open>o === t\<close>), which is the one at index \<open>i\<close>.
\<close>

definition sepStep :: "real \<Rightarrow> real \<Rightarrow> target \<Rightarrow> real \<times> real \<Rightarrow> real \<times> real" where
  "sepStep cx cy ot acc =
    (let ox = r_x ot + r_w ot / 2; oy = r_y ot + r_h ot / 2;
         dx = cx - ox; dy = cy - oy; dist = hypot dx dy
     in if dist > 0 \<and> dist < SEP_RADIUS AI_CFG
        then (let s = (SEP_RADIUS AI_CFG - dist) / SEP_RADIUS AI_CFG
              in (fst acc + (dx / dist) * s, snd acc + (dy / dist) * s))
        else acc)"

fun sepLoop :: "real \<Rightarrow> real \<Rightarrow> nat \<Rightarrow> nat \<Rightarrow> target list \<Rightarrow> real \<times> real \<Rightarrow> real \<times> real" where
  "sepLoop cx cy i j [] acc = acc"
| "sepLoop cx cy i j (ot # os) acc =
     sepLoop cx cy i (Suc j) os (if j = i then acc else sepStep cx cy ot acc)"

definition aiSteerBase :: "env \<Rightarrow> target list \<Rightarrow> nat \<Rightarrow> pred \<Rightarrow> base" where
  "aiSteerBase e ts i pr =
    (let t = ts ! i;
         px = pr_px pr; py = pr_py pr;
         cx = r_x t + r_w t / 2; cy = r_y t + r_h t / 2;
         toX = px - cx; toY = py - cy;
         d = or1 (hypot toX toY);
         awayX = - toX / d; awayY = - toY / d;
         tangX = - awayY; tangY = awayX;
         near = min 1 (max 0 ((ORBIT_DIST AI_CFG - d) / ORBIT_DIST AI_CFG));
         sx0 = awayX * (75 / 100 + 25 / 100 * near) + tangX * (ORBIT_FORCE AI_CFG * near);
         sy0 = awayY * (75 / 100 + 25 / 100 * near) + tangY * (ORBIT_FORCE AI_CFG * near);
         (sepX, sepY) = sepLoop cx cy i 0 ts (0, 0);
         sl = or1 (hypot sepX sepY);
         sx1 = (if sepX \<noteq> 0 \<or> sepY \<noteq> 0 then sx0 + (sepX / sl) * SEP_FORCE AI_CFG else sx0);
         sy1 = (if sepX \<noteq> 0 \<or> sepY \<noteq> 0 then sy0 + (sepY / sl) * SEP_FORCE AI_CFG else sy0);
         m = WALL_REPEL_MARGIN AI_CFG;
         sx2 = (if r_x t < m then sx1 + (if cx > px then 4 / 10 else 2 / 10) else sx1);
         sx3 = (if r_x t > canvas_width e - r_w t - m
                then sx2 + (if cx < px then - (4 / 10) else - (2 / 10)) else sx2);
         sy2 = (if r_y t < m then sy1 + (if cy > py then 4 / 10 else 2 / 10) else sy1);
         sy3 = (if r_y t > canvas_height e - r_h t - m
                then sy2 + (if cy < py then - (4 / 10) else - (2 / 10)) else sy2);
         edge = aiNearEdges e t;
         sy4 = (if edge_L edge \<or> edge_R edge
                then sy3 + (if cy > py then 1 else - 1) * SLIDE_FORCE AI_CFG else sy3);
         sx4 = (if edge_T edge \<or> edge_B edge
                then sx3 + (if cx > px then 1 else - 1) * SLIDE_FORCE AI_CFG else sx3)
     in \<lparr> b_sx = sx4, b_sy = sy4, b_d = d, b_cx = cx, b_cy = cy \<rparr>)"

subsection \<open>MODULE 7.10: HEATMAP\<close>

text \<open>
  \<^verbatim>\<open>_HEAT.grid\<close> is \<^verbatim>\<open>null\<close> before the first use and a \<^verbatim>\<open>Float32Array\<close> afterwards. A read
  outside the array gives \<^verbatim>\<open>undefined\<close>, which \<^verbatim>\<open>|| 0\<close> turns into 0; a write outside a typed
  array is dropped.
\<close>

definition gridGet :: "real list \<Rightarrow> int \<Rightarrow> real" where
  "gridGet gr k = (if 0 \<le> k \<and> k < int (length gr) then gr ! nat k else 0)"

definition gridAdd :: "real list \<Rightarrow> int \<Rightarrow> real \<Rightarrow> real list" where
  "gridAdd gr k v = (if 0 \<le> k \<and> k < int (length gr) then gr[nat k := gr ! nat k + v] else gr)"

definition heatmapInit :: "env \<Rightarrow> heat \<Rightarrow> heat" where
  "heatmapInit e hs =
    (let cell = HEATMAP_CELL AI_PROFILE
     in if cell = 0 then hs
        else (let cs = \<lceil>canvas_width e / real_of_int cell\<rceil>;
                  rs = \<lceil>canvas_height e / real_of_int cell\<rceil>
              in \<lparr> grid = Some (replicate (nat (cs * rs)) 0), cols = cs, rows = rs,
                    lastW = canvas_width e, lastH = canvas_height e \<rparr>))"

definition heatmapEnsure :: "env \<Rightarrow> heat \<Rightarrow> heat" where
  "heatmapEnsure e hs =
    (if grid hs = None \<or> lastW hs \<noteq> canvas_width e \<or> lastH hs \<noteq> canvas_height e
     then heatmapInit e hs else hs)"

definition heatmapIdx :: "heat \<Rightarrow> real \<Rightarrow> real \<Rightarrow> int" where
  "heatmapIdx hs a b =
    (let cell = HEATMAP_CELL AI_PROFILE;
         c = min (cols hs - 1) (max 0 \<lfloor>a / real_of_int cell\<rfloor>);
         r = min (rows hs - 1) (max 0 \<lfloor>b / real_of_int cell\<rfloor>)
     in r * cols hs + c)"

definition heatmapTick :: "env \<Rightarrow> player_rect \<Rightarrow> heat \<Rightarrow> heat" where
  "heatmapTick e p hs0 =
    (let hs = heatmapEnsure e hs0
     in case grid hs of
          None \<Rightarrow> hs
        | Some gr \<Rightarrow>
           (let decayed = map (\<lambda>v. v * HEATMAP_DECAY AI_PROFILE) gr;
                px = r_x p + r_w p / 2; py = r_y p + r_h p / 2;
                idx = heatmapIdx hs px py
            in hs\<lparr> grid := Some (gridAdd decayed idx (HEATMAP_PLAYER_STAMP AI_PROFILE)) \<rparr>))"

definition heatmapSample :: "env \<Rightarrow> heat \<Rightarrow> real \<Rightarrow> real \<Rightarrow> real \<times> heat" where
  "heatmapSample e hs0 a b =
    (let hs = heatmapEnsure e hs0
     in case grid hs of
          None \<Rightarrow> (0, hs)
        | Some gr \<Rightarrow> (gridGet gr (heatmapIdx hs a b), hs))"

definition aiHeatmapBias :: "env \<Rightarrow> heat \<Rightarrow> target \<Rightarrow> base \<Rightarrow> base \<times> heat" where
  "aiHeatmapBias e hs0 t b =
    (if grid hs0 = None then (b, hs0)
     else (let cx = r_x t + r_w t / 2; cy = r_y t + r_h t / 2;
               (s0, hs1) = heatmapSample e hs0 cx cy;
               (sXa, hs2) = heatmapSample e hs1 (cx + 24) cy;
               (sXb, hs3) = heatmapSample e hs2 (cx - 24) cy;
               sX = sXa - sXb;
               (sY, hs4) = heatmapSample e hs3 (cy + 24) cx
           in (b\<lparr> b_sx := b_sx b + (- sX) * (2 / 100) * HEATMAP_BIAS AI_PROFILE,
                   b_sy := b_sy b + (- sY) * (2 / 100) * HEATMAP_BIAS AI_PROFILE \<rparr>, hs4)))"

subsection \<open>MODULE 7.11: DISPERSION\<close>

definition nearEdge12 :: "env \<Rightarrow> target \<Rightarrow> bool" where
  "nearEdge12 e t \<longleftrightarrow>
     r_x t < 12 \<or> r_y t < 12 \<or>
     r_x t > canvas_width e - r_w t - 12 \<or> r_y t > canvas_height e - r_h t - 12"

text \<open>
  One round of the loop of \<^verbatim>\<open>aiApplyDispersion\<close>; the accumulator is
  \<open>(tangentPush, spaceX, spaceY)\<close> and the count of random draws. The loop is only reached
  when the target itself is near an edge, so \<^verbatim>\<open>oNearEdge && nearEdge\<close> is \<^verbatim>\<open>oNearEdge\<close>.
  \<^verbatim>\<open>Math.random()\<close> is called only when \<open>along\<close> is zero.
\<close>

definition dispStep ::
  "env \<Rightarrow> real \<Rightarrow> real \<Rightarrow> real \<Rightarrow> real \<Rightarrow> target \<Rightarrow> (real \<times> real \<times> real) \<times> nat
     \<Rightarrow> (real \<times> real \<times> real) \<times> nat" where
  "dispStep e cx cy edgeVX edgeVY ot acc =
    (case acc of ((tangentPush, spaceX, spaceY), n) \<Rightarrow>
      (let ox = r_x ot + r_w ot / 2; oy = r_y ot + r_h ot / 2;
           dist = hypot (cx - ox) (cy - oy);
           dx = cx - ox; dy = cy - oy;
           L = or1 (hypot dx dy);
           ms = DISPERSION_MIN_SPACING AI_PROFILE;
           spaceX' = (if dist < ms then spaceX + (dx / L) * ((ms - dist) / ms) else spaceX);
           spaceY' = (if dist < ms then spaceY + (dy / L) * ((ms - dist) / ms) else spaceY);
           along = (ox - cx) * edgeVX + (oy - cy) * edgeVY
       in if nearEdge12 e ot
          then (if along \<noteq> 0
                then ((tangentPush + sgn along, spaceX', spaceY'), n)
                else ((tangentPush + sgn (random e n - 1 / 2), spaceX', spaceY'), Suc n))
          else ((tangentPush, spaceX', spaceY'), n)))"

fun dispLoop ::
  "env \<Rightarrow> real \<Rightarrow> real \<Rightarrow> real \<Rightarrow> real \<Rightarrow> nat \<Rightarrow> nat \<Rightarrow> target list
     \<Rightarrow> (real \<times> real \<times> real) \<times> nat \<Rightarrow> (real \<times> real \<times> real) \<times> nat" where
  "dispLoop e cx cy evx evy i j [] acc = acc"
| "dispLoop e cx cy evx evy i j (ot # os) acc =
     dispLoop e cx cy evx evy i (Suc j) os
       (if j = i then acc else dispStep e cx cy evx evy ot acc)"

definition aiApplyDispersion :: "env \<Rightarrow> target list \<Rightarrow> nat \<Rightarrow> base \<Rightarrow> nat \<Rightarrow> base \<times> nat" where
  "aiApplyDispersion e ts i b n =
    (let t = ts ! i;
         cx = r_x t + r_w t / 2; cy = r_y t + r_h t / 2
     in if \<not> nearEdge12 e t then (b, n)
        else (let dLeft = r_x t;
                  dRight = canvas_width e - (r_x t + r_w t);
                  dTop = r_y t;
                  dBottom = canvas_height e - (r_y t + r_h t);
                  minD = min (min dLeft dRight) (min dTop dBottom);
                  edgeVX = (if minD = dLeft \<or> minD = dRight then 0 else 1);
                  edgeVY = (if minD = dLeft \<or> minD = dRight then 1 else 0);
                  ((tangentPush, spaceX, spaceY), n') =
                     dispLoop e cx cy edgeVX edgeVY i 0 ts ((0, 0, 0), n)
              in (b\<lparr> b_sx := b_sx b + spaceX * 1
                               + edgeVX * tangentPush * DISPERSION_EDGE_FAN AI_PROFILE,
                      b_sy := b_sy b + spaceY * 1
                               + edgeVY * tangentPush * DISPERSION_EDGE_FAN AI_PROFILE \<rparr>, n')))"

subsection \<open>MODULE 7.9: SECTORS\<close>

text \<open>
  \<^verbatim>\<open>aiAssignSectors\<close> runs its loop once in the life of the page: it initialises every target
  that has no AI state yet and stores its index.
\<close>

fun assignFrom :: "env \<Rightarrow> nat \<Rightarrow> target list \<Rightarrow> nat \<Rightarrow> target list \<times> nat" where
  "assignFrom e i [] n = ([], n)"
| "assignFrom e i (t # ts) n =
    (let (t1, n1) = aiInit e t n;
         t2 = t1\<lparr> t_ai := map_option (\<lambda>s. s\<lparr> sectorIndex := Some i \<rparr>) (t_ai t1) \<rparr>;
         (ts', n') = assignFrom e (Suc i) ts n1
     in (t2 # ts', n'))"

definition aiAssignSectors :: "env \<Rightarrow> game \<Rightarrow> game" where
  "aiAssignSectors e g =
    (if SECT_assigned g then g
     else (let (ts, n) = assignFrom e 0 (targets g) (rng g)
           in g\<lparr> SECT_assigned := True, targets := ts, rng := n \<rparr>))"

definition aiSectorPointFor :: "env \<Rightarrow> target list \<Rightarrow> target \<Rightarrow> real \<Rightarrow> real \<times> real" where
  "aiSectorPointFor e ts t timeSec =
    (let idx = (case t_ai t of None \<Rightarrow> 0
                | Some s \<Rightarrow> (case sectorIndex s of None \<Rightarrow> 0 | Some k \<Rightarrow> k));
         N = max 1 (length ts);
         arenaW = canvas_width e; arenaH = canvas_height e;
         ring = min arenaW arenaH * SECTOR_RING_RATIO AI_PROFILE;
         cx = arenaW * (1 / 2); cy = arenaH * (1 / 2);
         baseAngle = (real idx / real N) * pi * 2;
         rot = baseAngle + timeSec * SECTOR_ROT_SPEED AI_PROFILE
     in (cx + cos rot * ring, cy + sin rot * ring))"

definition aiSectorBias :: "env \<Rightarrow> game \<Rightarrow> target \<Rightarrow> base \<Rightarrow> bool \<Rightarrow> base" where
  "aiSectorBias e g t b playerFar =
    (if \<not> playerFar then b
     else (let nw = now e / 1000 - SECT_t0 g;
               (ptx, pty) = aiSectorPointFor e (targets g) t nw;
               toX = ptx - (r_x t + r_w t / 2);
               toY = pty - (r_y t + r_h t / 2);
               L = or1 (hypot toX toY);
               gain = SECTOR_STICK AI_PROFILE
           in b\<lparr> b_sx := b_sx b + (toX / L) * gain, b_sy := b_sy b + (toY / L) * gain \<rparr>))"

subsection \<open>MODULE 7.4: AI_JUKE\<close>

definition aiApplyJuke ::
  "env \<Rightarrow> player_rect \<Rightarrow> ai_state \<Rightarrow> base \<Rightarrow> pred \<Rightarrow> real \<Rightarrow> nat \<Rightarrow> ai_state \<times> base \<times> nat" where
  "aiApplyJuke e p s0 b pr dt n =
    (let s = s0\<lparr> jukeCool := max 0 (jukeCool s0 - dt), jukeTime := max 0 (jukeTime s0 - dt) \<rparr>;
         px = pr_px pr; py = pr_py pr; hx = pr_hx pr; hy = pr_hy pr; hv = pr_hv pr;
         cx = b_cx b; cy = b_cy b; d = b_d b
     in if jukeTime s > 0
        then (s, b\<lparr> b_sx := b_sx b + jukeDirX s * JUKE_PUSH AI_CFG,
                    b_sy := b_sy b + jukeDirY s * JUKE_PUSH AI_CFG \<rparr>, n)
        else if d < JUKE_CLOSE_DIST AI_CFG \<and> jukeCool s = 0 \<and> hv > 3 / 10
        then (let toTX = cx - (r_x p + r_w p / 2);
                  toTY = cy - (r_y p + r_h p / 2);
                  toTL = or1 (hypot toTX toTY);
                  nhx = hx / or1 (hypot hx hy); nhy = hy / or1 (hypot hx hy);
                  dot = (toTX / toTL) * nhx + (toTY / toTL) * nhy
              in if dot > JUKE_TRIGGER_ANGLE AI_CFG
                 then (let awayX = (cx - px) / or1 (hypot (cx - px) (cy - py));
                           awayY = (cy - py) / or1 (hypot (cx - px) (cy - py));
                           lx = - awayY; ly = awayX;
                           rx = awayY; ry = - awayX;
                           sL = (cx + lx * 40 - px)\<^sup>2 + (cy + ly * 40 - py)\<^sup>2;
                           sR = (cx + rx * 40 - px)\<^sup>2 + (cy + ry * 40 - py)\<^sup>2
                       in (s\<lparr> jukeDirX := (if sL > sR then lx else rx),
                               jukeDirY := (if sL > sR then ly else ry),
                               jukeTime := JUKE_DURATION AI_CFG,
                               jukeCool := JUKE_COOLDOWN AI_CFG + random e n * (4 / 10) \<rparr>,
                           b, Suc n))
                 else (s, b, n))
        else (s, b, n))"

subsection \<open>MODULE 7.5: AI_PATROL\<close>

definition aiApplyPatrol ::
  "env \<Rightarrow> target \<Rightarrow> ai_state \<Rightarrow> base \<Rightarrow> pred \<Rightarrow> real \<Rightarrow> nat \<Rightarrow> ai_state \<times> base \<times> nat" where
  "aiApplyPatrol e t s0 b pr dt n =
    (let s = s0\<lparr> patrolCool := max 0 (patrolCool s0 - dt),
                 patrolTime := max 0 (patrolTime s0 - dt) \<rparr>;
         cx = b_cx b; cy = b_cy b; d = b_d b;
         edge = aiNearEdges e t
     in if patrolTime s > 0
        then (s, b\<lparr> b_sx := b_sx b + patrolDirX s * PATROL_PUSH AI_CFG,
                    b_sy := b_sy b + patrolDirY s * PATROL_PUSH AI_CFG \<rparr>, n)
        else (let playerFar = d > ORBIT_DIST AI_CFG * (9 / 10);
                  onEdge = inCorner edge \<or> edge_L edge \<or> edge_R edge \<or> edge_T edge \<or> edge_B edge
              in if playerFar \<and> onEdge \<and> patrolCool s = 0
                 then (let targetX = min (canvas_width e - SAFE_BAND AI_CFG)
                                         (max (SAFE_BAND AI_CFG) cx);
                           targetY = min (canvas_height e - SAFE_BAND AI_CFG)
                                         (max (SAFE_BAND AI_CFG) cy);
                           dirX0 = sgn (targetX - cx);
                           dirY0 = sgn (targetY - cy);
                           tangX = - (pr_py pr - cy);
                           tangY = pr_px pr - cx;
                           tL = or1 (hypot tangX tangY);
                           dirX = 75 / 100 * dirX0 + 25 / 100 * (tangX / tL);
                           dirY = 75 / 100 * dirY0 + 25 / 100 * (tangY / tL);
                           nn = or1 (hypot dirX dirY)
                       in (s\<lparr> patrolDirX := dirX / nn, patrolDirY := dirY / nn,
                               patrolTime := PATROL_TIME AI_CFG,
                               patrolCool := PATROL_COOLDOWN AI_CFG + random e n * (1 / 2) \<rparr>,
                           b, Suc n))
                 else (s, b, n)))"

subsection \<open>Binary64 rounding\<close>

text \<open>
  The result of an operation on binary64 numbers is the exact result rounded to the nearest
  binary64 number, to the one with the even significand when two are equally near.
  \<open>binade n a\<close> is the exponent \<open>e\<close> with \<open>2^e \<le> a < 2^(e+1)\<close>, found in at most \<open>n\<close>
  halvings or doublings, and \<open>pow2 k\<close> is \<open>2^k\<close>. \<open>ulp a\<close> is the spacing of the binary64
  numbers at \<open>a\<close>: \<open>2^(e-52)\<close>, and \<open>2^(-1074)\<close> for every \<open>a\<close> below \<open>2^(-1022)\<close>, where
  underflow is gradual; the 1100 steps it allows reach every exponent of binary64.
  \<open>fl x\<close> is \<open>x\<close> rounded. Overflow to an infinity is outside the model.
\<close>

fun binade :: "nat \<Rightarrow> real \<Rightarrow> int" where
  "binade 0 a = 0"
| "binade (Suc n) a =
     (if 2 \<le> a then binade n (a / 2) + 1 else if a < 1 then binade n (a * 2) - 1 else 0)"

definition pow2 :: "int \<Rightarrow> real" where
  "pow2 k = (if 0 \<le> k then 2 ^ nat k else 1 / 2 ^ nat (- k))"

definition roundEven :: "real \<Rightarrow> int" where
  "roundEven q =
    (let m = \<lfloor>q\<rfloor>; r = q - of_int m
     in if r < 1 / 2 then m else if 1 / 2 < r then m + 1 else if even m then m else m + 1)"

definition ulp :: "real \<Rightarrow> real" where
  "ulp a = pow2 (max (- 1022) (binade 1100 a) - 52)"

definition fl :: "real \<Rightarrow> real" where
  "fl x = (if x < 0 then - (of_int (roundEven (- x / ulp (- x))) * ulp (- x))
           else of_int (roundEven (x / ulp x)) * ulp x)"

subsection \<open>MODULE 7.6: AI_INTEGRATE\<close>

text \<open>
  The body of \<^verbatim>\<open>aiIntegrate\<close>, one definition for each of its commented blocks, in the order
  of the source. The first block draws the two random numbers of a wander re-roll (when the
  timer has run out) before the two of the jitter.
\<close>

definition aiWander :: "env \<Rightarrow> ai_state \<Rightarrow> base \<Rightarrow> real \<Rightarrow> nat \<Rightarrow> ai_state \<times> base \<times> nat" where
  "aiWander e s0 b dt n =
    (let s1 = s0\<lparr> wanderTimer := wanderTimer s0 - dt \<rparr>;
         (s, n1) = (if wanderTimer s1 \<le> 0
                    then (s1\<lparr> wanderTimer := WANDER_T AI_CFG + random e n * (6 / 10),
                              wanderPhase := wanderPhase s1
                                              + (random e (Suc n) - 1 / 2) * (11 / 10) \<rparr>, n + 2)
                    else (s1, n));
         wanderMag = (if b_d b > ORBIT_DIST AI_CFG
                      then WANDER_MAG_FAR AI_CFG else WANDER_MAG_NEAR AI_CFG)
     in (s,
         b\<lparr> b_sx := b_sx b + (cos (wanderPhase s) * wanderMag
                                + (random e n1 - 1 / 2) * JITTER AI_CFG),
             b_sy := b_sy b + (sin (wanderPhase s) * wanderMag
                                + (random e (Suc n1) - 1 / 2) * JITTER AI_CFG) \<rparr>,
         n1 + 2))"

text \<open>\<^verbatim>\<open>Smooth steering\<close>: the acceleration direction \<open>(ax, ay)\<close>.\<close>

definition aiSmooth :: "ai_state \<Rightarrow> base \<Rightarrow> real \<times> real" where
  "aiSmooth s b =
    (let sl = or1 (hypot (b_sx b) (b_sy b));
         ax = b_sx b / sl; ay = b_sy b / sl
     in (ax * (1 - SMOOTH AI_CFG) + lastSteerX s * SMOOTH AI_CFG,
         ay * (1 - SMOOTH AI_CFG) + lastSteerY s * SMOOTH AI_CFG))"

text \<open>
  \<^verbatim>\<open>Panic speed bump near player\<close> and \<^verbatim>\<open>Clamp speed\<close>, in binary64 arithmetic. The script's
  \<^verbatim>\<open>1.12\<close> is the binary64 number nearest to it, \<open>maxV\<close> is a rounded product, \<^verbatim>\<open>Math.hypot\<close>
  is taken as correctly rounded, and each stored component is a rounded quotient times
  \<open>maxV\<close>, rounded.
\<close>

definition panic :: "base \<Rightarrow> real" where
  "panic b = (if b_d b < 150 then PANIC_SPEED_UP AI_CFG else 1)"

definition maxV :: "config \<Rightarrow> base \<Rightarrow> real" where
  "maxV cfg b = fl (TARGET_MAX_SPEED cfg * fl (panic b))"

definition clampSpeed :: "real \<Rightarrow> target \<Rightarrow> target" where
  "clampSpeed mv t =
    (let vL = or1 (fl (hypot (t_vx t) (t_vy t)))
     in if vL > mv
        then t\<lparr> t_vx := fl (fl (t_vx t / vL) * mv), t_vy := fl (fl (t_vy t / vL) * mv) \<rparr>
        else t)"

text \<open>
  \<^verbatim>\<open>Bounds with soft bounce\<close>: the four tests of the source, one definition each, and their
  sequence.
\<close>

definition bounceLeft :: "target \<Rightarrow> target" where
  "bounceLeft t = (if r_x t < 0 then t\<lparr> r_x := 0, t_vx := \<bar>t_vx t\<bar> * (7 / 10) \<rparr> else t)"

definition bounceTop :: "target \<Rightarrow> target" where
  "bounceTop t = (if r_y t < 0 then t\<lparr> r_y := 0, t_vy := \<bar>t_vy t\<bar> * (7 / 10) \<rparr> else t)"

definition bounceRight :: "env \<Rightarrow> target \<Rightarrow> target" where
  "bounceRight e t =
    (if r_x t > canvas_width e - r_w t
     then t\<lparr> r_x := canvas_width e - r_w t, t_vx := - \<bar>t_vx t\<bar> * (7 / 10) \<rparr> else t)"

definition bounceBottom :: "env \<Rightarrow> target \<Rightarrow> target" where
  "bounceBottom e t =
    (if r_y t > canvas_height e - r_h t
     then t\<lparr> r_y := canvas_height e - r_h t, t_vy := - \<bar>t_vy t\<bar> * (7 / 10) \<rparr> else t)"

definition aiBounds :: "env \<Rightarrow> target \<Rightarrow> target" where
  "aiBounds e t = bounceBottom e (bounceRight e (bounceTop (bounceLeft t)))"

text \<open>\<^verbatim>\<open>Integrate vel\<close>, \<^verbatim>\<open>Clamp speed\<close> and \<^verbatim>\<open>Move\<close>, for the direction \<open>(ax, ay)\<close>.\<close>

definition aiMove :: "config \<Rightarrow> real \<Rightarrow> real \<times> real \<Rightarrow> real \<Rightarrow> target \<Rightarrow> target" where
  "aiMove cfg mv a dt t0 =
    (let t1 = t0\<lparr> t_vx := t_vx t0 + fst a * TARGET_MAX_ACCEL cfg * dt,
                  t_vy := t_vy t0 + snd a * TARGET_MAX_ACCEL cfg * dt \<rparr>;
         t2 = clampSpeed mv t1
     in t2\<lparr> r_x := r_x t2 + t_vx t2 * dt, r_y := r_y t2 + t_vy t2 * dt \<rparr>)"

text \<open>
  The blocks before the bounds: the target after \<^verbatim>\<open>Move\<close>, its AI state with the smoothed
  direction stored, and the count of random draws.
\<close>

definition aiAdvance ::
  "config \<Rightarrow> env \<Rightarrow> target \<Rightarrow> ai_state \<Rightarrow> base \<Rightarrow> real \<Rightarrow> nat \<Rightarrow> target \<times> ai_state \<times> nat" where
  "aiAdvance cfg e t s0 b0 dt n =
    (let (s1, b, n1) = aiWander e s0 b0 dt n;
         a = aiSmooth s1 b
     in (aiMove cfg (maxV cfg b) a dt t, s1\<lparr> lastSteerX := fst a, lastSteerY := snd a \<rparr>, n1))"

definition aiIntegrate ::
  "config \<Rightarrow> env \<Rightarrow> target \<Rightarrow> ai_state \<Rightarrow> base \<Rightarrow> real \<Rightarrow> nat \<Rightarrow> target \<times> nat" where
  "aiIntegrate cfg e t s0 b0 dt n =
    (let (m, s, n1) = aiAdvance cfg e t s0 b0 dt n
     in ((aiBounds e m)\<lparr> t_ai := Some s \<rparr>, n1))"

subsection \<open>MODULE 7.7: UPDATE\<close>

text \<open>
  \<^verbatim>\<open>updateTargetAI(t, dt)\<close> for the target at index \<open>i\<close> of \<^verbatim>\<open>targets\<close>; the caller passes
  an index inside the array. The body is cut in three: the preparation (\<^verbatim>\<open>aiInit\<close>,
  \<^verbatim>\<open>aiAssignSectors\<close>, \<^verbatim>\<open>heatmapTick\<close>), the steering layers from \<^verbatim>\<open>aiPredictPlayer\<close> to
  \<^verbatim>\<open>aiApplyPatrol\<close>, and \<^verbatim>\<open>aiIntegrate\<close>. After \<^verbatim>\<open>aiInit\<close> the target has its AI state,
  so the branch \<open>None\<close> of \<open>updateTargetAI\<close> is never taken.
\<close>

definition aiPrepare :: "env \<Rightarrow> nat \<Rightarrow> game \<Rightarrow> game" where
  "aiPrepare e i g =
    (let (t0, n0) = aiInit e (targets g ! i) (rng g);
         g1 = g\<lparr> targets := (targets g)[i := t0], rng := n0 \<rparr>;
         g2 = aiAssignSectors e g1
     in g2\<lparr> HEAT := heatmapTick e (player g2) (HEAT g2) \<rparr>)"

definition aiSteer ::
  "env \<Rightarrow> real \<Rightarrow> nat \<Rightarrow> game \<Rightarrow> ai_state \<Rightarrow> (ai_state \<times> base \<times> nat) \<times> heat" where
  "aiSteer e dt i g s =
    (let pr = aiPredictPlayer e (player g);
         t = targets g ! i;
         b0 = aiSteerBase e (targets g) i pr;
         playerFar = b_d b0 > ORBIT_DIST AI_CFG * (9 / 10);
         (b1, hs) = aiHeatmapBias e (HEAT g) t b0;
         (b2, n2) = aiApplyDispersion e (targets g) i b1 (rng g);
         b3 = aiSectorBias e g t b2 playerFar;
         (s4, b4, n4) = aiApplyJuke e (player g) s b3 pr dt n2
     in (aiApplyPatrol e t s4 b4 pr dt n4, hs))"

definition updateTargetAI :: "config \<Rightarrow> env \<Rightarrow> real \<Rightarrow> nat \<Rightarrow> game \<Rightarrow> game" where
  "updateTargetAI cfg e dt i g =
    (let g3 = aiPrepare e i g;
         t = targets g3 ! i
     in case t_ai t of
          None \<Rightarrow> g3
        | Some s \<Rightarrow>
           (let ((s5, b5, n5), hs) = aiSteer e dt i g3 s;
                (t', n6) = aiIntegrate cfg e t s5 b5 dt n5
            in g3\<lparr> targets := (targets g3)[i := t'], HEAT := hs, rng := n6 \<rparr>))"

subsection \<open>MODULE 8: Update\<close>

definition restart :: "config \<Rightarrow> env \<Rightarrow> game \<Rightarrow> game" where
  "restart cfg e g =
    (let g1 = g\<lparr> score := 0, hp := HEALTH_MAX cfg, alive := True, elapsed := 0, targets := [] \<rparr>
     in fillToCap cfg e (targetCap cfg g1) g1)"

text \<open>\<^verbatim>\<open>targets.splice(i, 1)\<close>.\<close>

definition splice1 :: "nat \<Rightarrow> 'a list \<Rightarrow> 'a list" where
  "splice1 i xs = take i xs @ drop (Suc i) xs"

text \<open>
  One round of the loop \<^verbatim>\<open>update targets + collect\<close>, for the index \<open>i\<close>, and the loop from
  \<open>n - 1\<close> down to 0. A captured target is spliced out at once, so the rounds for the lower
  indices read the shorter array.
\<close>

definition collectStep :: "config \<Rightarrow> env \<Rightarrow> real \<Rightarrow> nat \<Rightarrow> game \<Rightarrow> game" where
  "collectStep cfg e dt i g =
    (let g1 = updateTargetAI cfg e dt i g
     in if rectsOverlap (player g1) (targets g1 ! i)
        then g1\<lparr> score := score g1 + 1, targets := splice1 i (targets g1) \<rparr>
        else g1)"

fun collectLoop :: "config \<Rightarrow> env \<Rightarrow> real \<Rightarrow> nat \<Rightarrow> game \<Rightarrow> game" where
  "collectLoop cfg e dt 0 g = g"
| "collectLoop cfg e dt (Suc i) g = collectLoop cfg e dt i (collectStep cfg e dt i g)"

definition movePlayer :: "env \<Rightarrow> real \<Rightarrow> player_rect \<Rightarrow> player_rect" where
  "movePlayer e dt p =
    (let (dx, dy) = readInput e;
         p1 = p\<lparr> r_x := r_x p + dx * p_speed p * dt, r_y := r_y p + dy * p_speed p * dt \<rparr>
     in p1\<lparr> r_x := clamp (r_x p1) 0 (canvas_width e - r_w p1),
             r_y := clamp (r_y p1) 0 (canvas_height e - r_h p1) \<rparr>)"

text \<open>\<^verbatim>\<open>elapsed += dt\<close> and the \<^verbatim>\<open>health drain\<close>.\<close>

definition drainHealth :: "config \<Rightarrow> real \<Rightarrow> game \<Rightarrow> game" where
  "drainHealth cfg dt g =
    (let g1 = g\<lparr> elapsed := elapsed g + dt \<rparr>
     in g1\<lparr> hp := clamp (hp g1 - HEALTH_DECAY_PER_SEC cfg * dt) 0 (HEALTH_MAX cfg) \<rparr>)"

text \<open>The last block of \<^verbatim>\<open>update\<close>: \<^verbatim>\<open>Only when ALL current cubes are cleared\<close>.\<close>

definition refillOnClear :: "config \<Rightarrow> env \<Rightarrow> game \<Rightarrow> game" where
  "refillOnClear cfg e g =
    (if length (targets g) = 0
     then (let g5 = g\<lparr> hp := clamp (hp g + HEALTH_REFILL_ON_CLEAR cfg) 0 (HEALTH_MAX cfg) \<rparr>
           in fillToCap cfg e (targetCap cfg g5) g5)
     else g)"

definition update :: "config \<Rightarrow> env \<Rightarrow> real \<Rightarrow> game \<Rightarrow> game" where
  "update cfg e dt g =
    (if \<not> alive g then (if K_space \<in> keys e then restart cfg e g else g)
     else (let g2 = drainHealth cfg dt g
           in if hp g2 \<le> 0 then g2\<lparr> alive := False \<rparr>
              else (let g3 = g2\<lparr> player := movePlayer e dt (player g2) \<rparr>;
                        g4 = collectLoop cfg e dt (length (targets g3)) g3
                    in refillOnClear cfg e g4)))"

subsection \<open>The arena, and mark-then-compact as the specification words it\<close>

text \<open>The rectangle of an agent lies inside the arena.\<close>

definition in_arena :: "env \<Rightarrow> 'a rect_scheme \<Rightarrow> bool" where
  "in_arena e t \<longleftrightarrow>
     0 \<le> r_x t \<and> r_x t \<le> canvas_width e - r_w t \<and>
     0 \<le> r_y t \<and> r_y t \<le> canvas_height e - r_h t"

text \<open>
  Modelled from the spec's words, to be compared with \<open>collectLoop\<close>: every agent's update
  runs against the full active collection (the agents are visited in the order of the source),
  a captured agent is only marked, and the marked agents are removed when the pass is over.
\<close>

definition markStep :: "config \<Rightarrow> env \<Rightarrow> real \<Rightarrow> nat \<Rightarrow> game \<times> nat list \<Rightarrow> game \<times> nat list" where
  "markStep cfg e dt i gm =
    (let g1 = updateTargetAI cfg e dt i (fst gm)
     in if rectsOverlap (player g1) (targets g1 ! i)
        then (g1\<lparr> score := score g1 + 1 \<rparr>, i # snd gm)
        else (g1, snd gm))"

fun markLoop :: "config \<Rightarrow> env \<Rightarrow> real \<Rightarrow> nat \<Rightarrow> game \<times> nat list \<Rightarrow> game \<times> nat list" where
  "markLoop cfg e dt 0 gm = gm"
| "markLoop cfg e dt (Suc i) gm = markLoop cfg e dt i (markStep cfg e dt i gm)"

definition compact :: "nat list \<Rightarrow> 'a list \<Rightarrow> 'a list" where
  "compact marked xs = map snd (filter (\<lambda>jx. fst jx \<notin> set marked) (enumerate 0 xs))"

definition markThenCompact :: "config \<Rightarrow> env \<Rightarrow> real \<Rightarrow> game \<Rightarrow> game" where
  "markThenCompact cfg e dt g =
    (let gm = markLoop cfg e dt (length (targets g)) (g, [])
     in (fst gm)\<lparr> targets := compact (snd gm) (targets (fst gm)) \<rparr>)"

text \<open>\<open>update\<close> with the pass replaced by mark-then-compact, and nothing else changed.\<close>

definition update_deferred :: "config \<Rightarrow> env \<Rightarrow> real \<Rightarrow> game \<Rightarrow> game" where
  "update_deferred cfg e dt g =
    (if \<not> alive g then (if K_space \<in> keys e then restart cfg e g else g)
     else (let g2 = drainHealth cfg dt g
           in if hp g2 \<le> 0 then g2\<lparr> alive := False \<rparr>
              else (let g3 = g2\<lparr> player := movePlayer e dt (player g2) \<rparr>;
                        g4 = markThenCompact cfg e dt g3
                    in refillOnClear cfg e g4)))"

text \<open>
  Modelled from the spec's words, to be compared with \<open>aiHeatmapBias\<close>: the heat-avoidance
  term as the negative of a finite-difference gradient of the heat field, two offset samples
  per axis (centre plus offset minus centre minus offset), scaled by the bias constant. The
  offset of 24 and the scale of 0.02 are those of the source.
\<close>

definition heatGradientBias :: "env \<Rightarrow> heat \<Rightarrow> target \<Rightarrow> real \<times> real" where
  "heatGradientBias e hs t =
    (let cx = r_x t + r_w t / 2; cy = r_y t + r_h t / 2;
         gx = fst (heatmapSample e hs (cx + 24) cy) - fst (heatmapSample e hs (cx - 24) cy);
         gy = fst (heatmapSample e hs cx (cy + 24)) - fst (heatmapSample e hs cx (cy - 24))
     in ((- gx) * (2 / 100) * HEATMAP_BIAS AI_PROFILE, (- gy) * (2 / 100) * HEATMAP_BIAS AI_PROFILE))"

text \<open>Two targets that differ at most in their AI state.\<close>

definition same_body :: "target \<Rightarrow> target \<Rightarrow> bool" where
  "same_body t t' \<longleftrightarrow>
     r_x t' = r_x t \<and> r_y t' = r_y t \<and> r_w t' = r_w t \<and> r_h t' = r_h t \<and>
     t_vx t' = t_vx t \<and> t_vy t' = t_vy t"

subsection \<open>Concrete frames\<close>

text \<open>
  A 640 by 480 canvas, no key held, \<^verbatim>\<open>Math.random()\<close> returning one half. The player stands
  on the target of index 1; the target of index 0 is 60 pixels to its left. Both targets
  have their AI state; the heat grid (8 by 6 cells) is cold.
\<close>

definition demo_env :: env where
  "demo_env = \<lparr> canvas_width = 640, canvas_height = 480, keys = {}, now = 0,
                 random = (\<lambda>n. 1 / 2) \<rparr>"

definition ai_idle :: ai_state where
  "ai_idle = \<lparr> wanderTimer = 1, wanderPhase = 0, lastSteerX = 0, lastSteerY = 0,
               jukeTime = 0, jukeCool = 0, jukeDirX = 0, jukeDirY = 0,
               patrolTime = 0, patrolCool = 0, patrolDirX = 0, patrolDirY = 0,
               sectorIndex = None \<rparr>"

definition demo_player :: player_rect where
  "demo_player = \<lparr> r_x = 268, r_y = 88, r_w = 24, r_h = 24, p_speed = 240 \<rparr>"

definition target_at :: "real \<Rightarrow> real \<Rightarrow> target" where
  "target_at a b = \<lparr> r_x = a, r_y = b, r_w = 24, r_h = 24, t_vx = 0, t_vy = 0,
                      t_ai = Some ai_idle \<rparr>"

definition cold_grid :: "real list" where
  "cold_grid = [0, 0, 0, 0, 0, 0, 0, 0,  0, 0, 0, 0, 0, 0, 0, 0,  0, 0, 0, 0, 0, 0, 0, 0,
                0, 0, 0, 0, 0, 0, 0, 0,  0, 0, 0, 0, 0, 0, 0, 0,  0, 0, 0, 0, 0, 0, 0, 0]"

definition demo_heat :: heat where
  "demo_heat = \<lparr> grid = Some cold_grid, cols = 8, rows = 6, lastW = 640, lastH = 480 \<rparr>"

definition demo_game :: game where
  "demo_game = \<lparr> player = demo_player, score = 0, hp = 100, alive = True, elapsed = 45,
                  targets = [target_at 208 88, target_at 268 88],
                  SECT_assigned = True, SECT_t0 = 0, HEAT = demo_heat, rng = 0 \<rparr>"




text \<open>
  The states that the tick of \<open>demo_game\<close> goes through: at the start of the pass; the captured
  target after its update; after the round of index 1, with the captured target spliced out
  (the source) and with it only marked (mark-then-compact); and the steering of the target of
  index 0 before the wander block, alone and next to the captured target. \<open>warm_heat v\<close> is
  the cold grid with heat \<open>v\<close> in the cell of the player.
\<close>

definition demo_pass :: game where
  "demo_pass = demo_game\<lparr> elapsed := 4501 / 100, hp := 9992 / 100 \<rparr>"

text \<open>The same moment with the target under the player as the only one.\<close>

definition solo_pass :: game where
  "solo_pass = demo_pass\<lparr> targets := [target_at 268 88] \<rparr>"

definition warm_heat :: "real \<Rightarrow> heat" where
  "warm_heat v = \<lparr> grid = Some
     [0, 0, 0, 0, 0, 0, 0, 0,  0, 0, 0, v, 0, 0, 0, 0,  0, 0, 0, 0, 0, 0, 0, 0,
      0, 0, 0, 0, 0, 0, 0, 0,  0, 0, 0, 0, 0, 0, 0, 0,  0, 0, 0, 0, 0, 0, 0, 0],
     cols = 8, rows = 6, lastW = 640, lastH = 480 \<rparr>"

definition caught :: target where
  "caught = \<lparr> r_x = 268 + 24 / 1000, r_y = 88, r_w = 24, r_h = 24, t_vx = 24 / 10, t_vy = 0,
              t_ai = Some (ai_idle\<lparr> wanderTimer := 99 / 100, lastSteerX := 4 / 10 \<rparr>) \<rparr>"

definition after_capture :: game where
  "after_capture = demo_pass\<lparr> score := 1, targets := [target_at 208 88],
                               HEAT := warm_heat (13 / 5), rng := 2 \<rparr>"

definition after_mark :: game where
  "after_mark = demo_pass\<lparr> score := 1, targets := [target_at 208 88, caught],
                            HEAT := warm_heat (13 / 5), rng := 2 \<rparr>"

definition base_alone :: base where
  "base_alone = \<lparr> b_sx = - (661679 / 650000), b_sy = - (17 / 26), b_d = 60,
                   b_cx = 220, b_cy = 100 \<rparr>"

definition base_crowded :: base where
  "base_crowded = \<lparr> b_sx = - (1246679 / 650000), b_sy = - (17 / 26), b_d = 60,
                     b_cx = 220, b_cy = 100 \<rparr>"

text \<open>Heat in one cell only, the one below the target at \<open>(288, 128)\<close>.\<close>

definition heat_below :: heat where
  "heat_below = \<lparr> grid = Some
     [0, 0, 0, 0, 0, 0, 0, 0,  0, 0, 0, 0, 0, 0, 0, 0,  0, 0, 0, 4, 0, 0, 0, 0,
      0, 0, 0, 0, 0, 0, 0, 0,  0, 0, 0, 0, 0, 0, 0, 0,  0, 0, 0, 0, 0, 0, 0, 0],
     cols = 8, rows = 6, lastW = 640, lastH = 480 \<rparr>"

section \<open>Vectors\<close>

lemma hypot_nonneg: "0 \<le> hypot a b"
  by (simp add: hypot_def)

lemma hypot_zero_iff: "hypot a b = 0 \<longleftrightarrow> a = 0 \<and> b = 0"
  by (simp add: hypot_def sum_power2_eq_zero_iff)

lemma hypot_axis_x: "hypot a 0 = \<bar>a\<bar>"
  by (simp add: hypot_def)

lemma hypot_axis_y: "hypot 0 b = \<bar>b\<bar>"
  by (simp add: hypot_def)

lemma or1_hypot_pos: "0 < or1 (hypot a b)"
  using hypot_nonneg [of a b] by (simp add: or1_def)

lemma len_pos: "0 < len a b"
  by (simp add: len_def or1_hypot_pos)

text \<open>
  C6. Normalisation never divides by zero: the length it divides by is positive for every
  vector (so multiplying the result by it gives the vector back), it is 1 for the zero
  vector, and the zero vector is normalised to the zero vector.
\<close>

theorem norm_never_divides_by_zero:
  "0 < len a b \<and> len 0 0 = 1 \<and> norm_xy 0 0 = (0, 0) \<and>
   norm_xy a b = (a / len a b, b / len a b) \<and>
   fst (norm_xy a b) * len a b = a \<and> snd (norm_xy a b) * len a b = b"
proof -
  have "len a b \<noteq> 0"
    using len_pos [of a b] by simp
  moreover have "len 0 0 = 1"
    by (simp add: len_def or1_def hypot_def)
  ultimately show ?thesis
    using len_pos [of a b] by (simp add: norm_xy_def Let_def)
qed

section \<open>The cap\<close>

lemma fillToCap_elapsed: "elapsed (fillToCap cfg e cap g) = elapsed g"
proof (induction cfg e cap g rule: fillToCap.induct)
  case (1 cfg e cap g)
  show ?case
  proof (cases "int (length (targets g)) < cap")
    case True
    then show ?thesis using 1 by (subst fillToCap.simps) simp
  next
    case False
    then show ?thesis by (subst fillToCap.simps) simp
  qed
qed

lemma fillToCap_length:
  "int (length (targets g)) \<le> cap \<Longrightarrow> int (length (targets (fillToCap cfg e cap g))) = cap"
proof (induction cfg e cap g rule: fillToCap.induct)
  case (1 cfg e cap g)
  show ?case
  proof (cases "int (length (targets g)) < cap")
    case True
    then show ?thesis using 1 by (subst fillToCap.simps) simp
  next
    case False
    then show ?thesis using 1(2) by (subst fillToCap.simps) simp
  qed
qed

lemma restart_elapsed: "elapsed (restart cfg e g) = 0"
  by (simp add: restart_def Let_def fillToCap_elapsed)

section \<open>What a tick leaves alone\<close>

lemma aiAssignSectors_frame:
  "player (aiAssignSectors e g) = player g"
  "elapsed (aiAssignSectors e g) = elapsed g"
  "hp (aiAssignSectors e g) = hp g"
  "alive (aiAssignSectors e g) = alive g"
  "score (aiAssignSectors e g) = score g"
  "SECT_t0 (aiAssignSectors e g) = SECT_t0 g"
  "HEAT (aiAssignSectors e g) = HEAT g"
  by (simp_all add: aiAssignSectors_def split: prod.splits)

lemma aiPrepare_frame:
  "player (aiPrepare e i g) = player g"
  "elapsed (aiPrepare e i g) = elapsed g"
  "hp (aiPrepare e i g) = hp g"
  "alive (aiPrepare e i g) = alive g"
  "score (aiPrepare e i g) = score g"
  "SECT_t0 (aiPrepare e i g) = SECT_t0 g"
  by (simp_all add: aiPrepare_def Let_def aiAssignSectors_frame split: prod.splits)

lemma updateTargetAI_frame:
  "player (updateTargetAI cfg e dt i g) = player g"
  "elapsed (updateTargetAI cfg e dt i g) = elapsed g"
  "hp (updateTargetAI cfg e dt i g) = hp g"
  "alive (updateTargetAI cfg e dt i g) = alive g"
  "score (updateTargetAI cfg e dt i g) = score g"
  "SECT_t0 (updateTargetAI cfg e dt i g) = SECT_t0 g"
  by (simp_all add: updateTargetAI_def Let_def aiPrepare_frame split: prod.splits option.splits)

lemma collectStep_frame:
  "player (collectStep cfg e dt i g) = player g"
  "elapsed (collectStep cfg e dt i g) = elapsed g"
  "hp (collectStep cfg e dt i g) = hp g"
  "alive (collectStep cfg e dt i g) = alive g"
  by (simp_all add: collectStep_def Let_def updateTargetAI_frame)

lemma collectLoop_frame:
  "player (collectLoop cfg e dt n g) = player g"
  "elapsed (collectLoop cfg e dt n g) = elapsed g"
  "hp (collectLoop cfg e dt n g) = hp g"
  "alive (collectLoop cfg e dt n g) = alive g"
  by (induction n arbitrary: g; simp add: collectStep_frame)+

lemma update_elapsed: "alive g \<Longrightarrow> elapsed (update cfg e dt g) = elapsed g + dt"
  by (simp add: update_def Let_def refillOnClear_def drainHealth_def fillToCap_elapsed
        collectLoop_frame)

lemma targetCap_mono:
  "0 < TIME_STEP_SEC cfg \<Longrightarrow> elapsed g \<le> elapsed g' \<Longrightarrow> targetCap cfg g \<le> targetCap cfg g'"
  by (simp add: targetCap_def floor_mono divide_right_mono)

text \<open>
  C1. For a positive step interval and a non-negative elapsed time, the cap is
  \<open>1 + floor (elapsed / step)\<close>, at least 1 and non-decreasing in the elapsed time, also
  from one tick of a running session to the next; after a restart it is 1. With the step
  of 30 seconds: 1 at 0 and at 29.9, 2 at 30, 3 at 89.9, 4 at 90.
\<close>

theorem targetCap_floor_monotone:
  assumes "0 < TIME_STEP_SEC cfg" and "0 \<le> elapsed g"
  shows "targetCap cfg g = 1 + \<lfloor>elapsed g / TIME_STEP_SEC cfg\<rfloor> \<and>
         1 \<le> targetCap cfg g \<and>
         (\<forall>g'. elapsed g \<le> elapsed g' \<longrightarrow> targetCap cfg g \<le> targetCap cfg g') \<and>
         (\<forall>e dt. alive g \<and> 0 \<le> dt \<longrightarrow> targetCap cfg g \<le> targetCap cfg (update cfg e dt g)) \<and>
         (\<forall>e. elapsed (restart cfg e g) = 0 \<and> targetCap cfg (restart cfg e g) = 1) \<and>
         targetCap CFG (g\<lparr>elapsed := 0\<rparr>) = 1 \<and>
         targetCap CFG (g\<lparr>elapsed := 299 / 10\<rparr>) = 1 \<and>
         targetCap CFG (g\<lparr>elapsed := 30\<rparr>) = 2 \<and>
         targetCap CFG (g\<lparr>elapsed := 899 / 10\<rparr>) = 3 \<and>
         targetCap CFG (g\<lparr>elapsed := 90\<rparr>) = 4"
proof -
  have pos: "1 \<le> targetCap cfg g"
    using assms by (simp add: targetCap_def)
  have mono: "\<forall>g'. elapsed g \<le> elapsed g' \<longrightarrow> targetCap cfg g \<le> targetCap cfg g'"
    using assms(1) by (simp add: targetCap_mono)
  have tick: "\<forall>e dt. alive g \<and> 0 \<le> dt \<longrightarrow> targetCap cfg g \<le> targetCap cfg (update cfg e dt g)"
    using assms(1) by (simp add: targetCap_mono update_elapsed)
  have again: "\<forall>e. elapsed (restart cfg e g) = 0 \<and> targetCap cfg (restart cfg e g) = 1"
    by (simp add: targetCap_def restart_elapsed)
  have ex: "targetCap CFG (g\<lparr>elapsed := 0\<rparr>) = 1 \<and>
         targetCap CFG (g\<lparr>elapsed := 299 / 10\<rparr>) = 1 \<and>
         targetCap CFG (g\<lparr>elapsed := 30\<rparr>) = 2 \<and>
         targetCap CFG (g\<lparr>elapsed := 899 / 10\<rparr>) = 3 \<and>
         targetCap CFG (g\<lparr>elapsed := 90\<rparr>) = 4"
    by (simp add: targetCap_def CFG_def)
  show ?thesis
    using pos mono tick again ex by (simp add: targetCap_def)
qed

theorem targetCap_floor_monotone_witness:
  "0 < TIME_STEP_SEC CFG \<and> 0 \<le> elapsed demo_game \<and> targetCap CFG demo_game = 2 \<and>
   targetCap CFG demo_game \<le> targetCap CFG (update CFG demo_env (1 / 100) demo_game) \<and>
   targetCap CFG (restart CFG demo_env demo_game) = 1"
proof -
  have h1: "0 < TIME_STEP_SEC CFG" by (simp add: CFG_def)
  have h2: "0 \<le> elapsed demo_game" by (simp add: demo_game_def)
  have h3: "alive demo_game \<and> (0::real) \<le> 1 / 100" by (simp add: demo_game_def)
  note inst = targetCap_floor_monotone [OF h1 h2]
  have "targetCap CFG demo_game = 2"
    using inst by (simp add: demo_game_def CFG_def)
  moreover have "targetCap CFG demo_game \<le> targetCap CFG (update CFG demo_env (1 / 100) demo_game)"
    using inst h3 by blast
  moreover have "targetCap CFG (restart CFG demo_env demo_game) = 1"
    using inst by blast
  ultimately show ?thesis
    using h1 h2 by simp
qed

text \<open>
  C10. While the session is over and the space key is not held, a tick changes nothing:
  the state after \<open>update\<close> is the state before it, for every \<open>dt\<close>.
\<close>

theorem update_game_over_idle:
  "\<not> alive g \<Longrightarrow> K_space \<notin> keys e \<Longrightarrow> update cfg e dt g = g"
  by (simp add: update_def)

theorem update_game_over_idle_witness:
  "\<not> alive (demo_game\<lparr>alive := False, hp := 0\<rparr>) \<and> K_space \<notin> keys demo_env \<and>
   update CFG demo_env (1 / 30) (demo_game\<lparr>alive := False, hp := 0\<rparr>)
     = demo_game\<lparr>alive := False, hp := 0\<rparr>"
proof -
  have h1: "\<not> alive (demo_game\<lparr>alive := False, hp := 0\<rparr>)" by simp
  have h2: "K_space \<notin> keys demo_env" by (simp add: demo_env_def)
  show ?thesis
    using h1 h2 update_game_over_idle [OF h1 h2] by simp
qed

section \<open>Rounding\<close>

lemma pow2_powr: "pow2 k = 2 powr (real_of_int k)"
proof (cases "0 \<le> k")
  case True
  then show ?thesis
    by (simp add: pow2_def powr_realpow [symmetric])
next
  case False
  then have r: "real (nat (- k)) = - real_of_int k"
    by simp
  have "2 powr (real_of_int k) = 1 / 2 powr (- real_of_int k)"
    by (simp add: powr_minus_divide [symmetric])
  also have "\<dots> = 1 / 2 powr (real (nat (- k)))"
    unfolding r ..
  also have "\<dots> = 1 / 2 ^ nat (- k)"
    by (simp only: powr_realpow zero_less_numeral)
  finally show ?thesis
    using False by (simp add: pow2_def)
qed

lemma pow2_pos [simp]: "0 < pow2 k"
  by (simp add: pow2_powr)

lemma pow2_add: "pow2 (a + b) = pow2 a * pow2 b"
  by (simp add: pow2_powr powr_add)

lemma pow2_le_iff [simp]: "pow2 a \<le> pow2 b \<longleftrightarrow> a \<le> b"
  by (simp add: pow2_powr)


lemma pow2_0: "pow2 0 = 1" and pow2_1: "pow2 1 = 2"
  by (simp_all add: pow2_def)





lemma pow2_Suc: "pow2 (e + 1) = 2 * pow2 e"
  by (simp add: pow2_add pow2_1)

lemma pow2_pred: "pow2 (e - 1) = pow2 e / 2"
  using pow2_Suc [of "e - 1"] by simp

lemma roundEven_err: "\<bar>of_int (roundEven q) - q\<bar> \<le> 1 / 2"
  unfolding roundEven_def Let_def by (auto; linarith)



lemma binade_ge: "1 \<le> a \<Longrightarrow> 0 \<le> binade n a \<and> pow2 (binade n a) \<le> a"
proof (induction n arbitrary: a)
  case 0
  then show ?case by (simp add: pow2_0)
next
  case (Suc n)
  show ?case
  proof (cases "2 \<le> a")
    case True
    then have "0 \<le> binade n (a / 2) \<and> pow2 (binade n (a / 2)) \<le> a / 2"
      by (intro Suc.IH) simp
    then show ?thesis
      using True by (simp add: pow2_Suc)
  next
    case False
    then show ?thesis
      using Suc.prems by (simp add: pow2_0)
  qed
qed

lemma binade_small:
  "0 < a \<Longrightarrow> a < 1 \<Longrightarrow> - int n < binade n a \<Longrightarrow> pow2 (binade n a) \<le> a"
proof (induction n arbitrary: a)
  case 0
  then show ?case by simp
next
  case (Suc n)
  show ?case
  proof (cases "a * 2 < 1")
    case True
    have "pow2 (binade n (a * 2)) \<le> a * 2"
      using Suc.prems True by (intro Suc.IH) simp_all
    then show ?thesis
      using Suc.prems by (simp add: pow2_pred)
  next
    case False
    then have "pow2 (binade n (a * 2)) \<le> a * 2"
      using binade_ge [of "a * 2" n] by simp
    then show ?thesis
      using Suc.prems by (simp add: pow2_pred)
  qed
qed

lemma binade_zero: "binade n 0 = - int n"
  by (induction n) simp_all

lemma ulp_pos [simp]: "0 < ulp a"
  by (simp add: ulp_def)

lemma ulp_nonneg [simp]: "0 \<le> ulp a"
  using ulp_pos [of a] by (rule less_imp_le)

lemma ulp_neq0 [simp]: "ulp a \<noteq> 0"
  by (simp add: ulp_def less_imp_neq [OF pow2_pos, symmetric])

text \<open>Half a unit in the last place: at most \<open>a / 2^53\<close>, or \<open>2^(-1075)\<close> under gradual underflow.\<close>

lemma ulp_half_cases:
  assumes "0 \<le> a"
  shows "ulp a / 2 = 1 / 2 ^ 1075 \<or> ulp a / 2 \<le> a / 2 ^ 53"
proof -
  let ?e = "binade 1100 a"
  have p53: "pow2 (k - 52) / 2 = pow2 k / 2 ^ 53" for k
    using pow2_add [of k "- 52"] by (simp add: pow2_def)
  show ?thesis
  proof (cases "?e \<le> - 1022")
    case True
    then have "ulp a = pow2 (- 1022 - 52)"
      by (simp add: ulp_def max_def)
    then have "ulp a / 2 = 1 / 2 ^ 1075"
      by (simp add: pow2_def)
    then show ?thesis
      by simp
  next
    case False
    then have u: "ulp a / 2 = pow2 ?e / 2 ^ 53"
      by (simp add: ulp_def max_def p53)
    have "pow2 ?e \<le> a"
    proof (cases "1 \<le> a")
      case True
      then show ?thesis
        using binade_ge by simp
    next
      case F: False
      have "a \<noteq> 0"
        using False by (auto simp add: binade_zero)
      then show ?thesis
        using assms F False by (intro binade_small) simp_all
    qed
    then have "pow2 ?e / 2 ^ 53 \<le> a / 2 ^ 53"
      by (simp add: divide_right_mono)
    then show ?thesis
      unfolding u by simp
  qed
qed

lemma fl_half_ulp: "\<bar>fl x - x\<bar> \<le> ulp \<bar>x\<bar> / 2"
proof -
  have pos: "\<bar>of_int (roundEven (a / ulp a)) * ulp a - a\<bar> \<le> ulp a / 2" for a
  proof -
    have "\<bar>of_int (roundEven (a / ulp a)) - a / ulp a\<bar> \<le> 1 / 2"
      by (rule roundEven_err)
    then have "\<bar>of_int (roundEven (a / ulp a)) - a / ulp a\<bar> * ulp a \<le> 1 / 2 * ulp a"
      by (intro mult_right_mono) simp_all
    moreover have "\<bar>of_int (roundEven (a / ulp a)) - a / ulp a\<bar> * ulp a
                    = \<bar>of_int (roundEven (a / ulp a)) * ulp a - a\<bar>"
    proof -
      have "\<bar>of_int (roundEven (a / ulp a)) - a / ulp a\<bar> * ulp a
              = \<bar>(of_int (roundEven (a / ulp a)) - a / ulp a) * ulp a\<bar>"
        by (simp add: abs_mult)
      also have "(of_int (roundEven (a / ulp a)) - a / ulp a) * ulp a
                   = of_int (roundEven (a / ulp a)) * ulp a - a"
        by (simp add: left_diff_distrib)
      finally show ?thesis .
    qed
    ultimately show ?thesis
      by simp
  qed
  show ?thesis
  proof (cases "x < 0")
    case True
    then have "fl x - x = - (of_int (roundEven (- x / ulp (- x))) * ulp (- x) - (- x))"
      by (simp add: fl_def)
    then have "\<bar>fl x - x\<bar> = \<bar>of_int (roundEven (- x / ulp (- x))) * ulp (- x) - (- x)\<bar>"
      by (simp only: abs_minus_cancel)
    moreover have "\<bar>x\<bar> = - x"
      using True by simp
    ultimately show ?thesis
      using pos [of "- x"] by (simp only:)
  next
    case False
    then have "fl x = of_int (roundEven (x / ulp x)) * ulp x" and "\<bar>x\<bar> = x"
      by (simp_all add: fl_def)
    then show ?thesis
      using pos [of x] by (simp only:)
  qed
qed

lemma fl_err: "\<bar>fl x - x\<bar> \<le> \<bar>x\<bar> / 2 ^ 53 + 1 / 2 ^ 1075"
proof -
  have S0: "(0::real) \<le> 1 / 2 ^ 1075" and X0: "0 \<le> \<bar>x\<bar> / 2 ^ 53"
    by simp_all
  have "ulp \<bar>x\<bar> / 2 \<le> \<bar>x\<bar> / 2 ^ 53 + 1 / 2 ^ 1075"
  proof (rule disjE [OF ulp_half_cases [of "\<bar>x\<bar>"]])
    show "0 \<le> \<bar>x\<bar>"
      by simp
    show "ulp \<bar>x\<bar> / 2 \<le> \<bar>x\<bar> / 2 ^ 53 + 1 / 2 ^ 1075" if "ulp \<bar>x\<bar> / 2 = 1 / 2 ^ 1075"
      using that X0 by (simp only:)
    show "ulp \<bar>x\<bar> / 2 \<le> \<bar>x\<bar> / 2 ^ 53 + 1 / 2 ^ 1075" if "ulp \<bar>x\<bar> / 2 \<le> \<bar>x\<bar> / 2 ^ 53"
      using that S0 by linarith
  qed
  then show ?thesis
    using fl_half_ulp [of x] by linarith
qed

lemma fl_err_normal:
  assumes "1 / 2 ^ 1022 \<le> \<bar>x\<bar>"
  shows "\<bar>fl x - x\<bar> \<le> \<bar>x\<bar> / 2 ^ 53"
proof -
  have "(1 / 2 ^ 1022) / 2 ^ 53 \<le> \<bar>x\<bar> / 2 ^ 53"
    using assms by (rule divide_right_mono) simp
  then have n: "1 / 2 ^ 1075 \<le> \<bar>x\<bar> / 2 ^ 53"
    by simp
  have "ulp \<bar>x\<bar> / 2 \<le> \<bar>x\<bar> / 2 ^ 53"
  proof (rule disjE [OF ulp_half_cases [of "\<bar>x\<bar>"]])
    show "0 \<le> \<bar>x\<bar>"
      by simp
    show "ulp \<bar>x\<bar> / 2 \<le> \<bar>x\<bar> / 2 ^ 53" if "ulp \<bar>x\<bar> / 2 = 1 / 2 ^ 1075"
      using that n by (simp only:)
    show "ulp \<bar>x\<bar> / 2 \<le> \<bar>x\<bar> / 2 ^ 53" if "ulp \<bar>x\<bar> / 2 \<le> \<bar>x\<bar> / 2 ^ 53"
      using that .
  qed
  then show ?thesis
    using fl_half_ulp [of x] by linarith
qed

lemma fl_rel:
  assumes "1 / 2 ^ 1022 \<le> x"
  shows "x * (1 - 1 / 2 ^ 53) \<le> fl x" and "fl x \<le> x * (1 + 1 / 2 ^ 53)"
proof -
  have x0: "0 \<le> x"
    using assms by (rule order_trans [rotated]) simp
  then have "\<bar>fl x - x\<bar> \<le> x / 2 ^ 53"
    using fl_err_normal [of x] assms by simp
  then have "x - x / 2 ^ 53 \<le> fl x" and "fl x \<le> x + x / 2 ^ 53"
    by linarith+
  then show "x * (1 - 1 / 2 ^ 53) \<le> fl x" and "fl x \<le> x * (1 + 1 / 2 ^ 53)"
    by (simp_all only: right_diff_distrib distrib_left mult_1_right times_divide_eq_right)
qed

lemma fl_abs_le: "\<bar>fl x\<bar> \<le> \<bar>x\<bar> * (1 + 1 / 2 ^ 53) + 1 / 2 ^ 1075"
proof -
  have "\<bar>fl x\<bar> \<le> \<bar>x\<bar> + \<bar>fl x - x\<bar>"
    by simp
  also have "\<dots> \<le> \<bar>x\<bar> + (\<bar>x\<bar> / 2 ^ 53 + 1 / 2 ^ 1075)"
    using fl_err [of x] by simp
  finally show ?thesis
    by (simp add: algebra_simps)
qed

lemma fl_ge: "x - (\<bar>x\<bar> / 2 ^ 53 + 1 / 2 ^ 1075) \<le> fl x"
  using fl_err [of x] by linarith




section \<open>Speed and containment\<close>

lemma hypot_scale: "hypot (a * c) (b * c) = hypot a b * \<bar>c\<bar>"
proof -
  have "(a * c)\<^sup>2 + (b * c)\<^sup>2 = (a\<^sup>2 + b\<^sup>2) * c\<^sup>2"
    by (simp add: power_mult_distrib algebra_simps)
  then show ?thesis
    by (simp add: hypot_def real_sqrt_mult)
qed

lemma hypot_mono: "\<bar>a\<bar> \<le> \<bar>a'\<bar> \<Longrightarrow> \<bar>b\<bar> \<le> \<bar>b'\<bar> \<Longrightarrow> hypot a b \<le> hypot a' b'"
proof -
  assume "\<bar>a\<bar> \<le> \<bar>a'\<bar>" and "\<bar>b\<bar> \<le> \<bar>b'\<bar>"
  then have "a\<^sup>2 \<le> a'\<^sup>2" and "b\<^sup>2 \<le> b'\<^sup>2"
    by (simp_all add: abs_le_square_iff)
  then show ?thesis
    by (simp add: hypot_def add_mono)
qed

lemma abs_le_hypot: "\<bar>a\<bar> \<le> hypot a b" "\<bar>b\<bar> \<le> hypot a b"
  using hypot_mono [of a a 0 b] hypot_mono [of 0 a b b] by (simp_all add: hypot_axis_x hypot_axis_y)

lemma hypot_abs: "hypot \<bar>a\<bar> \<bar>b\<bar> = hypot a b"
  by (simp add: hypot_def)

lemma hypot_add: "hypot (a + c) (b + d) \<le> hypot a b + hypot c d"
  unfolding hypot_def by (rule real_sqrt_sum_squares_triangle_ineq)

lemma hypot_le_sum: "hypot a b \<le> \<bar>a\<bar> + \<bar>b\<bar>"
  unfolding hypot_def by (rule sqrt_sum_squares_le_sum_abs)

text \<open>One stored component of the clamp, \<open>fl (fl c * mv)\<close> for the quotient \<open>c\<close>.\<close>

lemma store_bound:
  assumes "0 \<le> mv"
  shows "\<bar>fl (fl c * mv)\<bar>
           \<le> \<bar>c\<bar> * (mv * (1 + 1 / 2 ^ 53)\<^sup>2) + (mv * (1 + 1 / 2 ^ 53) / 2 ^ 1075 + 1 / 2 ^ 1075)"
proof -
  let ?U = "1 + 1 / 2 ^ 53 :: real" and ?S = "1 / 2 ^ 1075 :: real"
  have "\<bar>fl c * mv\<bar> = \<bar>fl c\<bar> * mv"
    using assms by (simp add: abs_mult)
  also have "\<dots> \<le> (\<bar>c\<bar> * ?U + ?S) * mv"
    using assms fl_abs_le [of c] by (rule_tac mult_right_mono)
  finally have "\<bar>fl c * mv\<bar> * ?U \<le> (\<bar>c\<bar> * ?U + ?S) * mv * ?U"
    by (rule mult_right_mono) simp
  moreover have "\<bar>fl (fl c * mv)\<bar> \<le> \<bar>fl c * mv\<bar> * ?U + ?S"
    by (rule fl_abs_le)
  ultimately have "\<bar>fl (fl c * mv)\<bar> \<le> (\<bar>c\<bar> * ?U + ?S) * mv * ?U + ?S"
    by linarith
  also have "\<dots> = \<bar>c\<bar> * (mv * ?U\<^sup>2) + (mv * ?U / 2 ^ 1075 + 1 / 2 ^ 1075)"
    by (simp add: algebra_simps power2_eq_square)
  finally show ?thesis .
qed

text \<open>The length that the clamp reads, against the exact one.\<close>

lemma length_read:
  "hypot vx vy * (1 - 1 / 2 ^ 53) \<le> or1 (fl (hypot vx vy)) + 1 / 2 ^ 1075"
proof -
  let ?h = "hypot vx vy"
  have h: "0 \<le> ?h"
    by (rule hypot_nonneg)
  have e: "?h - (?h / 2 ^ 53 + 1 / 2 ^ 1075) \<le> fl ?h"
    using fl_ge [of ?h] h by simp
  show ?thesis
  proof (cases "fl ?h = 0")
    case True
    then have "?h * (1 - 1 / 2 ^ 53) \<le> 1 / 2 ^ 1075"
      using e by (simp add: algebra_simps)
    then show ?thesis
      using True by (simp add: or1_def)
  next
    case False
    then show ?thesis
      using e by (simp add: or1_def algebra_simps)
  qed
qed

lemma clamp_keep_bound:
  assumes "1 / 2 \<le> mv" and "or1 (fl (hypot vx vy)) \<le> mv"
  shows "hypot vx vy \<le> mv * (1 + 1 / 2 ^ 51)"
proof -
  let ?h = "hypot vx vy"
  have "?h * (1 - 1 / 2 ^ 53) \<le> mv + 1 / 2 ^ 1075"
    using length_read [of vx vy] assms(2) by linarith
  also have "\<dots> \<le> mv * (1 + 1 / 2 ^ 51) * (1 - 1 / 2 ^ 53)"
  proof -
    have "mv + 1 / 2 ^ 1075 \<le> mv + mv * (1 / 2 ^ 1074)"
      using assms(1) by simp
    also have "\<dots> = mv * (1 + 1 / 2 ^ 1074)"
      by (simp add: algebra_simps)
    also have "\<dots> \<le> mv * ((1 + 1 / 2 ^ 51) * (1 - 1 / 2 ^ 53))"
      using assms(1) by (intro mult_left_mono) simp_all
    finally show ?thesis
      by (simp add: mult.assoc)
  qed
  finally show ?thesis
    by simp
qed

lemma clamp_store_bound:
  assumes mv: "1 / 2 \<le> mv" and g: "mv < or1 (fl (hypot vx vy))"
  shows "hypot (fl (fl (vx / or1 (fl (hypot vx vy))) * mv))
               (fl (fl (vy / or1 (fl (hypot vx vy))) * mv)) \<le> mv * (1 + 1 / 2 ^ 51)"
proof -
  let ?h = "hypot vx vy"
  let ?g = "or1 (fl ?h)"
  let ?A = "mv * (1 + 1 / 2 ^ 53)\<^sup>2" and ?B = "mv * (1 + 1 / 2 ^ 53) / 2 ^ 1075 + 1 / 2 ^ 1075"
  have mv0: "0 \<le> mv" and gpos: "0 < ?g" and ghalf: "1 / 2 \<le> ?g"
    using mv g by simp_all
  have A0: "0 \<le> ?A" and B0: "0 \<le> ?B"
    using mv0 by simp_all
  have "?h * (1 - 1 / 2 ^ 53) \<le> ?g + 1 / 2 ^ 1075"
    by (rule length_read)
  also have "\<dots> \<le> ?g + ?g * (1 / 2 ^ 1074)"
    using ghalf by simp
  finally have r: "?h * (1 - 1 / 2 ^ 53) \<le> ?g * (1 + 1 / 2 ^ 1074)"
    by (simp add: algebra_simps)
  have ratio: "?h / ?g \<le> (1 + 1 / 2 ^ 1074) / (1 - 1 / 2 ^ 53)"
  proof -
    have "?h / ?g * (1 - 1 / 2 ^ 53) = ?h * (1 - 1 / 2 ^ 53) / ?g"
      by simp
    also have "\<dots> \<le> ?g * (1 + 1 / 2 ^ 1074) / ?g"
      using r gpos by (intro divide_right_mono) simp_all
    also have "\<dots> = 1 + 1 / 2 ^ 1074"
      using gpos by simp
    finally have le: "?h / ?g * (1 - 1 / 2 ^ 53) \<le> 1 + 1 / 2 ^ 1074" .
    have d: "(0::real) < 1 - 1 / 2 ^ 53"
      by simp
    show ?thesis
      using le by (simp only: pos_le_divide_eq [OF d])
  qed
  have dir: "hypot (vx / ?g) (vy / ?g) = ?h / ?g"
    using hypot_scale [of vx "1 / ?g" vy] gpos by simp
  let ?rx = "fl (fl (vx / ?g) * mv)" and ?ry = "fl (fl (vy / ?g) * mv)"
  have "hypot ?rx ?ry \<le> hypot (\<bar>vx / ?g\<bar> * ?A + ?B) (\<bar>vy / ?g\<bar> * ?A + ?B)"
  proof (rule hypot_mono)
    show "\<bar>?rx\<bar> \<le> \<bar>\<bar>vx / ?g\<bar> * ?A + ?B\<bar>"
      using store_bound [OF mv0, of "vx / ?g"] A0 B0 by (simp add: abs_of_nonneg)
    show "\<bar>?ry\<bar> \<le> \<bar>\<bar>vy / ?g\<bar> * ?A + ?B\<bar>"
      using store_bound [OF mv0, of "vy / ?g"] A0 B0 by (simp add: abs_of_nonneg)
  qed
  also have "\<dots> \<le> hypot (\<bar>vx / ?g\<bar> * ?A) (\<bar>vy / ?g\<bar> * ?A) + hypot ?B ?B"
    by (rule hypot_add)
  also have "hypot (\<bar>vx / ?g\<bar> * ?A) (\<bar>vy / ?g\<bar> * ?A) = ?h / ?g * ?A"
  proof -
    have "hypot (\<bar>vx / ?g\<bar> * ?A) (\<bar>vy / ?g\<bar> * ?A) = hypot \<bar>vx / ?g\<bar> \<bar>vy / ?g\<bar> * \<bar>?A\<bar>"
      by (rule hypot_scale)
    also have "hypot \<bar>vx / ?g\<bar> \<bar>vy / ?g\<bar> = hypot (vx / ?g) (vy / ?g)"
      by (rule hypot_abs)
    finally show ?thesis
      using A0 by (simp only: dir abs_of_nonneg)
  qed
  also have "?h / ?g * ?A + hypot ?B ?B \<le> (1 + 1 / 2 ^ 1074) / (1 - 1 / 2 ^ 53) * ?A + 2 * ?B"
  proof -
    have "?h / ?g * ?A \<le> (1 + 1 / 2 ^ 1074) / (1 - 1 / 2 ^ 53) * ?A"
      using ratio A0 by (rule mult_right_mono)
    moreover have "hypot ?B ?B \<le> 2 * ?B"
      using hypot_le_sum [of ?B ?B] B0 by (simp only: abs_of_nonneg) simp
    ultimately show ?thesis
      by linarith
  qed
  also have "\<dots> \<le> mv * (1 + 1 / 2 ^ 51)"
  proof -
    have "2 * ?B \<le> mv * (2 * (1 + 1 / 2 ^ 53) / 2 ^ 1075 + 4 / 2 ^ 1075)"
      using mv by (simp add: algebra_simps)
    then have "(1 + 1 / 2 ^ 1074) / (1 - 1 / 2 ^ 53) * ?A + 2 * ?B
                 \<le> mv * ((1 + 1 / 2 ^ 1074) / (1 - 1 / 2 ^ 53) * (1 + 1 / 2 ^ 53)\<^sup>2
                          + (2 * (1 + 1 / 2 ^ 53) / 2 ^ 1075 + 4 / 2 ^ 1075))"
      by (simp add: algebra_simps)
    also have "\<dots> \<le> mv * (1 + 1 / 2 ^ 51)"
      using mv0 by (intro mult_left_mono) (simp_all add: power2_eq_square)
    finally show ?thesis .
  qed
  finally show ?thesis .
qed

text \<open>
  After the clamp the speed is within the cap up to rounding, whether the velocity was
  rescaled or left alone.
\<close>

lemma clampSpeed_speed:
  assumes "1 / 2 \<le> mv"
  shows "hypot (t_vx (clampSpeed mv t)) (t_vy (clampSpeed mv t)) \<le> mv * (1 + 1 / 2 ^ 51)"
proof (cases "mv < or1 (fl (hypot (t_vx t) (t_vy t)))")
  case True
  then show ?thesis
    using clamp_store_bound [OF assms True] by (simp add: clampSpeed_def Let_def)
next
  case False
  then have "or1 (fl (hypot (t_vx t) (t_vy t))) \<le> mv"
    by simp
  then show ?thesis
    using clamp_keep_bound [OF assms] False by (simp add: clampSpeed_def Let_def)
qed

text \<open>A velocity of at most half the cap is left alone.\<close>

lemma clampSpeed_slow:
  assumes "1 \<le> mv" and "hypot (t_vx t) (t_vy t) \<le> mv / 2"
  shows "clampSpeed mv t = t"
proof -
  let ?h = "hypot (t_vx t) (t_vy t)"
  have h: "0 \<le> ?h"
    by (rule hypot_nonneg)
  have "\<bar>fl ?h\<bar> \<le> \<bar>?h\<bar> * (1 + 1 / 2 ^ 53) + 1 / 2 ^ 1075"
    by (rule fl_abs_le)
  also have "\<dots> \<le> mv / 2 * (1 + 1 / 2 ^ 53) + 1 / 2 ^ 1075"
    using h assms(2) by (simp add: mult_right_mono)
  also have "\<dots> \<le> mv / 2 * (1 + 1 / 2 ^ 53) + mv * (1 / 2 ^ 1075)"
    using assms(1) by simp
  also have "\<dots> = mv * ((1 + 1 / 2 ^ 53) / 2 + 1 / 2 ^ 1075)"
    by (simp add: algebra_simps)
  also have "\<dots> \<le> mv * 1"
    using assms(1) by (intro mult_left_mono) simp_all
  finally have "fl ?h \<le> mv"
    by simp
  then have "or1 (fl ?h) \<le> mv"
    using assms(1) by (simp add: or1_def)
  then show ?thesis
    by (simp add: clampSpeed_def Let_def)
qed

lemma clampSpeed_rect [simp]:
  "r_x (clampSpeed mv t) = r_x t" "r_y (clampSpeed mv t) = r_y t"
  "r_w (clampSpeed mv t) = r_w t" "r_h (clampSpeed mv t) = r_h t"
  "t_ai (clampSpeed mv t) = t_ai t"
  by (simp_all add: clampSpeed_def Let_def)

lemma bounceLeft_simps [simp]:
  "r_x (bounceLeft t) = max 0 (r_x t)" "r_y (bounceLeft t) = r_y t"
  "r_w (bounceLeft t) = r_w t" "r_h (bounceLeft t) = r_h t"
  "t_vy (bounceLeft t) = t_vy t" "t_ai (bounceLeft t) = t_ai t"
  by (simp_all add: bounceLeft_def)

lemma bounceTop_simps [simp]:
  "r_y (bounceTop t) = max 0 (r_y t)" "r_x (bounceTop t) = r_x t"
  "r_w (bounceTop t) = r_w t" "r_h (bounceTop t) = r_h t"
  "t_vx (bounceTop t) = t_vx t" "t_ai (bounceTop t) = t_ai t"
  by (simp_all add: bounceTop_def)

lemma bounceRight_simps [simp]:
  "r_x (bounceRight e t) = min (canvas_width e - r_w t) (r_x t)" "r_y (bounceRight e t) = r_y t"
  "r_w (bounceRight e t) = r_w t" "r_h (bounceRight e t) = r_h t"
  "t_vy (bounceRight e t) = t_vy t" "t_ai (bounceRight e t) = t_ai t"
  by (simp_all add: bounceRight_def)

lemma bounceBottom_simps [simp]:
  "r_y (bounceBottom e t) = min (canvas_height e - r_h t) (r_y t)" "r_x (bounceBottom e t) = r_x t"
  "r_w (bounceBottom e t) = r_w t" "r_h (bounceBottom e t) = r_h t"
  "t_vx (bounceBottom e t) = t_vx t" "t_ai (bounceBottom e t) = t_ai t"
  by (simp_all add: bounceBottom_def)



lemma aiBounds_size [simp]:
  "r_w (aiBounds e t) = r_w t" "r_h (aiBounds e t) = r_h t" "t_ai (aiBounds e t) = t_ai t"
  by (simp_all add: aiBounds_def)

lemma aiBounds_pos:
  "r_x (aiBounds e t) = min (canvas_width e - r_w t) (max 0 (r_x t))"
  "r_y (aiBounds e t) = min (canvas_height e - r_h t) (max 0 (r_y t))"
  by (simp_all add: aiBounds_def)





lemma aiMove_size [simp]:
  "r_w (aiMove cfg mv a dt t) = r_w t" "r_h (aiMove cfg mv a dt t) = r_h t"
  by (simp_all add: aiMove_def Let_def)

lemma aiMove_speed:
  "1 / 2 \<le> mv \<Longrightarrow>
     hypot (t_vx (aiMove cfg mv a dt t)) (t_vy (aiMove cfg mv a dt t)) \<le> mv * (1 + 1 / 2 ^ 51)"
  using clampSpeed_speed [of mv] by (simp add: aiMove_def Let_def)

lemma aiWander_d [simp]: "b_d (fst (snd (aiWander e s b dt n))) = b_d b"
  by (simp add: aiWander_def Let_def split: prod.splits)

lemma panic_range: "1 \<le> panic b" "panic b \<le> 2"
  by (simp_all add: panic_def AI_CFG_def)

lemma fl_panic:
  "panic b * (1 - 1 / 2 ^ 53) \<le> fl (panic b)" "fl (panic b) \<le> panic b * (1 + 1 / 2 ^ 53)"
proof -
  have "1 / 2 ^ 1022 \<le> panic b"
    using panic_range(1) [of b] by (rule order_trans [rotated]) simp
  then show "panic b * (1 - 1 / 2 ^ 53) \<le> fl (panic b)" "fl (panic b) \<le> panic b * (1 + 1 / 2 ^ 53)"
    by (rule fl_rel)+
qed

text \<open>The cap that the clamp uses is the product of the claim up to two roundings.\<close>

lemma maxV_bounds:
  assumes "1 \<le> TARGET_MAX_SPEED cfg"
  shows "TARGET_MAX_SPEED cfg * panic b * (1 - 1 / 2 ^ 52) \<le> maxV cfg b"
    and "maxV cfg b \<le> TARGET_MAX_SPEED cfg * panic b * (1 + 3 / 2 ^ 53)"
    and "1 / 2 \<le> maxV cfg b"
proof -
  let ?M = "TARGET_MAX_SPEED cfg" and ?P = "panic b"
  let ?x = "?M * fl ?P"
  have M0: "0 \<le> ?M" and MP1: "1 \<le> ?M * ?P" and MP0: "0 \<le> ?M * ?P"
    using assms panic_range(1) [of b] mult_mono [of 1 ?M 1 ?P] by simp_all
  have lo: "?M * ?P * (1 - 1 / 2 ^ 53) \<le> ?x"
    using mult_left_mono [OF fl_panic(1) M0, of b] by (simp add: mult.assoc)
  have hi: "?x \<le> ?M * ?P * (1 + 1 / 2 ^ 53)"
    using mult_left_mono [OF fl_panic(2) M0, of b] by (simp add: mult.assoc)
  have "1 * (1 - 1 / 2 ^ 53) \<le> ?M * ?P * (1 - 1 / 2 ^ 53)"
    using MP1 by (rule mult_right_mono) simp
  then have x1: "1 - 1 / 2 ^ 53 \<le> ?x"
    using lo by simp
  then have xn: "1 / 2 ^ 1022 \<le> ?x"
    by (rule order_trans [rotated]) simp
  have flo: "?x * (1 - 1 / 2 ^ 53) \<le> fl ?x" and fhi: "fl ?x \<le> ?x * (1 + 1 / 2 ^ 53)"
    using xn by (rule fl_rel)+
  have "?M * ?P * (1 - 1 / 2 ^ 52) \<le> ?M * ?P * ((1 - 1 / 2 ^ 53) * (1 - 1 / 2 ^ 53))"
    by (rule mult_left_mono [OF _ MP0]) simp
  also have "\<dots> = ?M * ?P * (1 - 1 / 2 ^ 53) * (1 - 1 / 2 ^ 53)"
    by (simp only: mult.assoc)
  also have "\<dots> \<le> ?x * (1 - 1 / 2 ^ 53)"
    using lo by (rule mult_right_mono) simp
  also have "\<dots> \<le> fl ?x"
    by (rule flo)
  finally show "?M * ?P * (1 - 1 / 2 ^ 52) \<le> maxV cfg b"
    by (simp only: maxV_def)
  have "fl ?x \<le> ?x * (1 + 1 / 2 ^ 53)"
    by (rule fhi)
  also have "\<dots> \<le> ?M * ?P * (1 + 1 / 2 ^ 53) * (1 + 1 / 2 ^ 53)"
    using hi by (rule mult_right_mono) simp
  also have "\<dots> = ?M * ?P * ((1 + 1 / 2 ^ 53) * (1 + 1 / 2 ^ 53))"
    by (simp only: mult.assoc)
  also have "\<dots> \<le> ?M * ?P * (1 + 3 / 2 ^ 53)"
    by (rule mult_left_mono [OF _ MP0]) simp
  finally show "maxV cfg b \<le> ?M * ?P * (1 + 3 / 2 ^ 53)"
    by (simp only: maxV_def)
  have "(1 - 1 / 2 ^ 53) * (1 - 1 / 2 ^ 53) \<le> ?x * (1 - 1 / 2 ^ 53)"
    using x1 by (rule mult_right_mono) simp
  moreover have "(1 / 2 :: real) \<le> (1 - 1 / 2 ^ 53) * (1 - 1 / 2 ^ 53)"
    by simp
  ultimately have "1 / 2 \<le> fl ?x"
    using flo by linarith
  then show "1 / 2 \<le> maxV cfg b"
    by (simp only: maxV_def)
qed

lemma maxV_CFG: "200 \<le> maxV CFG b" "maxV CFG b \<le> 247"
proof -
  have m: "1 \<le> TARGET_MAX_SPEED CFG"
    by (simp add: CFG_def)
  have "200 \<le> TARGET_MAX_SPEED CFG * panic b * (1 - 1 / 2 ^ 52)"
    using panic_range(1) [of b] by (simp add: CFG_def)
  then show "200 \<le> maxV CFG b"
    using maxV_bounds(1) [OF m, of b] by linarith
  have "TARGET_MAX_SPEED CFG * panic b * (1 + 3 / 2 ^ 53) \<le> 247"
    by (simp add: CFG_def panic_def AI_CFG_def)
  then show "maxV CFG b \<le> 247"
    using maxV_bounds(2) [OF m, of b] by linarith
qed

lemma aiIntegrate_target:
  "fst (aiIntegrate cfg e t s b dt n) =
     (aiBounds e (fst (aiAdvance cfg e t s b dt n)))
       \<lparr> t_ai := Some (fst (snd (aiAdvance cfg e t s b dt n))) \<rparr>"
  by (simp add: aiIntegrate_def Let_def case_prod_beta)

lemma aiAdvance_target:
  "fst (aiAdvance cfg e t s b dt n) =
     aiMove cfg (maxV cfg b)
       (aiSmooth (fst (aiWander e s b dt n)) (fst (snd (aiWander e s b dt n)))) dt t"
  by (simp add: aiAdvance_def Let_def case_prod_beta maxV_def panic_def)

lemma maxV_wander [simp]: "maxV cfg (fst (snd (aiWander e s b dt n))) = maxV cfg b"
  by (simp add: maxV_def panic_def)

lemma aiAdvance_size [simp]:
  "r_w (fst (aiAdvance cfg e t s b dt n)) = r_w t" "r_h (fst (aiAdvance cfg e t s b dt n)) = r_h t"
  by (simp_all add: aiAdvance_target)




section \<open>The preparation touches only the AI state\<close>

lemma same_body_refl [simp]: "same_body t t"
  by (simp add: same_body_def)



lemma same_body_ai: "same_body t t' \<Longrightarrow> same_body t (t'\<lparr> t_ai := a \<rparr>)"
  by (simp add: same_body_def)

lemma same_body_trans: "same_body a b \<Longrightarrow> same_body b c \<Longrightarrow> same_body a c"
  by (simp add: same_body_def)

lemma aiInit_body: "same_body t (fst (aiInit e t n))"
  by (simp add: aiInit_def same_body_def split: option.splits)


lemma assignFrom_Cons:
  "fst (assignFrom e i (t # ts) n) =
     (fst (aiInit e t n))\<lparr> t_ai := map_option (\<lambda>s. s\<lparr> sectorIndex := Some i \<rparr>)
                                     (t_ai (fst (aiInit e t n))) \<rparr>
       # fst (assignFrom e (Suc i) ts (snd (aiInit e t n)))"
  by (simp add: Let_def case_prod_beta)

lemma assignFrom_body: "list_all2 same_body ts (fst (assignFrom e i ts n))"
proof (induction ts arbitrary: i n)
  case Nil
  then show ?case by simp
next
  case (Cons t ts)
  show ?case
    unfolding assignFrom_Cons using Cons.IH by (simp add: same_body_ai aiInit_body)
qed


lemma aiAssignSectors_body: "list_all2 same_body (targets g) (targets (aiAssignSectors e g))"
  by (simp add: aiAssignSectors_def case_prod_beta assignFrom_body list_all2_refl)

lemma list_all2_same_body_update:
  "same_body (ts ! i) t' \<Longrightarrow> list_all2 same_body ts (ts[i := t'])"
proof -
  assume h: "same_body (ts ! i) t'"
  have "same_body (ts ! j) (ts[i := t'] ! j)" if "j < length ts" for j
    using that h by (cases "j = i") simp_all
  then show ?thesis
    by (simp add: list_all2_conv_all_nth)
qed

lemma aiPrepare_body: "list_all2 same_body (targets g) (targets (aiPrepare e i g))"
proof -
  let ?g1 = "g\<lparr> targets := (targets g)[i := fst (aiInit e (targets g ! i) (rng g))],
                rng := snd (aiInit e (targets g ! i) (rng g)) \<rparr>"
  have "list_all2 same_body (targets g) (targets ?g1)"
    by (simp add: list_all2_same_body_update aiInit_body)
  moreover have "list_all2 same_body (targets ?g1) (targets (aiAssignSectors e ?g1))"
    by (rule aiAssignSectors_body)
  ultimately have "list_all2 same_body (targets g) (targets (aiAssignSectors e ?g1))"
    using list_all2_trans [of same_body same_body same_body] same_body_trans by blast
  then show ?thesis
    by (simp add: aiPrepare_def Let_def case_prod_beta)
qed

lemma aiPrepare_length [simp]: "length (targets (aiPrepare e i g)) = length (targets g)"
  using aiPrepare_body [of g e i] by (simp add: list_all2_lengthD)




section \<open>The steering layers keep the distance to the player\<close>


lemma aiHeatmapBias_d [simp]: "b_d (fst (aiHeatmapBias e hs t b)) = b_d b"
  by (simp add: aiHeatmapBias_def Let_def case_prod_beta)

lemma aiApplyDispersion_d [simp]: "b_d (fst (aiApplyDispersion e ts i b n)) = b_d b"
  by (simp add: aiApplyDispersion_def Let_def case_prod_beta)

lemma aiSectorBias_d [simp]: "b_d (aiSectorBias e g t b far) = b_d b"
  by (simp add: aiSectorBias_def Let_def case_prod_beta)

lemma aiApplyJuke_d [simp]: "b_d (fst (snd (aiApplyJuke e p s b pr dt n))) = b_d b"
  by (simp add: aiApplyJuke_def Let_def)

lemma aiApplyPatrol_d [simp]: "b_d (fst (snd (aiApplyPatrol e t s b pr dt n))) = b_d b"
  by (simp add: aiApplyPatrol_def Let_def)




lemma updateTargetAI_length [simp]:
  "length (targets (updateTargetAI cfg e dt i g)) = length (targets g)"
  by (simp add: updateTargetAI_def Let_def case_prod_beta split: option.splits)



lemma demo_pred [simp]:
  "aiPredictPlayer demo_env demo_player = \<lparr> pr_px = 280, pr_py = 100, pr_hx = 0, pr_hy = 0, pr_hv = 0 \<rparr>"
  by (simp add: aiPredictPlayer_def readInput_def demo_env_def demo_player_def hypot_def AI_CFG_def)












section \<open>Bounce\<close>





section \<open>Smoothing\<close>





lemma aiAdvance_state:
  "fst (snd (aiAdvance cfg e t s b dt n)) =
     (fst (aiWander e s b dt n))
       \<lparr> lastSteerX := fst (aiSmooth (fst (aiWander e s b dt n)) (fst (snd (aiWander e s b dt n)))),
          lastSteerY := snd (aiSmooth (fst (aiWander e s b dt n)) (fst (snd (aiWander e s b dt n)))) \<rparr>"
  by (simp add: aiAdvance_def Let_def case_prod_beta)




section \<open>Spawning\<close>

lemma makeTarget_snd [simp]: "snd (makeTarget cfg e n) = n + 2"
  by (simp add: makeTarget_def)

lemma spawnTry_avoids:
  "fst (spawnTry cfg e p k n) = fallbackTarget cfg e \<or> \<not> rectsOverlap p (fst (spawnTry cfg e p k n))"
  by (induction k arbitrary: n) simp_all

lemma spawnTry_exhausted:
  "(\<forall>j<k. rectsOverlap p (fst (makeTarget cfg e (n + 2 * j))))
     \<Longrightarrow> spawnTry cfg e p k n = (fallbackTarget cfg e, n + 2 * k)"
proof (induction k arbitrary: n)
  case 0
  then show ?case by simp
next
  case (Suc k)
  have first: "rectsOverlap p (fst (makeTarget cfg e n))"
    using Suc.prems [rule_format, of 0] by simp
  have "\<forall>j<k. rectsOverlap p (fst (makeTarget cfg e (n + 2 + 2 * j)))"
  proof (intro allI impI)
    fix j assume "j < k"
    then show "rectsOverlap p (fst (makeTarget cfg e (n + 2 + 2 * j)))"
      using Suc.prems [rule_format, of "Suc j"] by (simp add: algebra_simps)
  qed
  then have "spawnTry cfg e p k (n + 2) = (fallbackTarget cfg e, n + 2 + 2 * k)"
    by (rule Suc.IH)
  then show ?case
    using first by simp
qed

text \<open>The loop returns the first attempt that is clear of the player.\<close>

lemma spawnTry_first:
  "j < k \<Longrightarrow> (\<forall>i<j. rectsOverlap p (fst (makeTarget cfg e (n + 2 * i))))
     \<Longrightarrow> \<not> rectsOverlap p (fst (makeTarget cfg e (n + 2 * j)))
     \<Longrightarrow> spawnTry cfg e p k n = makeTarget cfg e (n + 2 * j)"
proof (induction k arbitrary: n j)
  case 0
  then show ?case by simp
next
  case (Suc k)
  show ?case
  proof (cases j)
    case 0
    then show ?thesis
      using Suc.prems(3) by simp
  next
    case (Suc j')
    have first: "rectsOverlap p (fst (makeTarget cfg e n))"
      using Suc.prems(2) [rule_format, of 0] Suc by simp
    have "spawnTry cfg e p k (n + 2) = makeTarget cfg e (n + 2 + 2 * j')"
    proof (rule Suc.IH)
      show "j' < k"
        using Suc.prems(1) Suc by simp
      show "\<forall>i<j'. rectsOverlap p (fst (makeTarget cfg e (n + 2 + 2 * i)))"
      proof (intro allI impI)
        fix i assume "i < j'"
        then show "rectsOverlap p (fst (makeTarget cfg e (n + 2 + 2 * i)))"
          using Suc.prems(2) [rule_format, of "Suc i"] Suc by (simp add: algebra_simps)
      qed
      show "\<not> rectsOverlap p (fst (makeTarget cfg e (n + 2 + 2 * j')))"
        using Suc.prems(3) Suc by (simp add: algebra_simps)
    qed
    then show ?thesis
      using first Suc by (simp add: algebra_simps)
  qed
qed





lemma fillToCap_player [simp]: "player (fillToCap cfg e cap g) = player g"
proof (induction cfg e cap g rule: fillToCap.induct)
  case (1 cfg e cap g)
  show ?case
  proof (cases "int (length (targets g)) < cap")
    case True
    then show ?thesis using 1 by (subst fillToCap.simps) simp
  next
    case False
    then show ?thesis by (subst fillToCap.simps) simp
  qed
qed

lemma fillToCap_avoids:
  "list_all (\<lambda>t. t = fallbackTarget cfg e \<or> \<not> rectsOverlap pl t) (targets g) \<Longrightarrow> player g = pl \<Longrightarrow>
   list_all (\<lambda>t. t = fallbackTarget cfg e \<or> \<not> rectsOverlap pl t) (targets (fillToCap cfg e cap g))"
proof (induction cfg e cap g rule: fillToCap.induct)
  case (1 cfg e cap g)
  show ?case
  proof (cases "int (length (targets g)) < cap")
    case True
    have "fst (spawnAvoidingPlayer cfg e pl (rng g)) = fallbackTarget cfg e
            \<or> \<not> rectsOverlap pl (fst (spawnAvoidingPlayer cfg e pl (rng g)))"
      unfolding spawnAvoidingPlayer_def by (rule spawnTry_avoids)
    then show ?thesis
      using True 1 by (subst fillToCap.simps) simp
  next
    case False
    then show ?thesis
      using 1(2) by (subst fillToCap.simps) simp
  qed
qed

lemma fillToCap_spawned:
  "list_all (\<lambda>t. \<exists>m. t = fst (spawnAvoidingPlayer cfg e pl m)) (targets g) \<Longrightarrow> player g = pl \<Longrightarrow>
   list_all (\<lambda>t. \<exists>m. t = fst (spawnAvoidingPlayer cfg e pl m)) (targets (fillToCap cfg e cap g))"
proof (induction cfg e cap g rule: fillToCap.induct)
  case (1 cfg e cap g)
  show ?case
  proof (cases "int (length (targets g)) < cap")
    case True
    have "\<exists>m. fst (spawnAvoidingPlayer cfg e pl (rng g)) = fst (spawnAvoidingPlayer cfg e pl m)"
      by blast
    then show ?thesis
      using True 1 by (subst fillToCap.simps) simp
  next
    case False
    then show ?thesis
      using 1(2) by (subst fillToCap.simps) simp
  qed
qed

lemma fillToCap_prefix: "\<exists>ys. targets (fillToCap cfg e cap g) = targets g @ ys"
proof (induction cfg e cap g rule: fillToCap.induct)
  case (1 cfg e cap g)
  show ?case
  proof (cases "int (length (targets g)) < cap")
    case True
    then show ?thesis
      using 1 by (subst fillToCap.simps) auto
  next
    case False
    then show ?thesis
      by (subst fillToCap.simps) simp
  qed
qed

lemma fillToCap_first:
  assumes "targets g = []" and "0 < cap"
  shows "targets (fillToCap cfg e cap g) ! 0 = fst (spawnAvoidingPlayer cfg e (player g) (rng g))"
proof -
  let ?g' = "g\<lparr> targets := targets g @ [fst (spawnAvoidingPlayer cfg e (player g) (rng g))],
                rng := snd (spawnAvoidingPlayer cfg e (player g) (rng g)) \<rparr>"
  have "fillToCap cfg e cap g = fillToCap cfg e cap ?g'"
    using assms by (subst fillToCap.simps) simp
  moreover obtain ys where "targets (fillToCap cfg e cap ?g') = targets ?g' @ ys"
    using fillToCap_prefix by blast
  ultimately show ?thesis
    using assms(1) by simp
qed


section \<open>The arena is kept\<close>

















section \<open>Refill after a clear\<close>

lemma refillOnClear_length:
  assumes "0 < TIME_STEP_SEC cfg" and "0 \<le> elapsed g" and "targets g = []"
  shows "int (length (targets (refillOnClear cfg e g))) = targetCap cfg g"
proof -
  let ?g5 = "g\<lparr> hp := clamp (hp g + HEALTH_REFILL_ON_CLEAR cfg) 0 (HEALTH_MAX cfg) \<rparr>"
  have "0 \<le> \<lfloor>elapsed g / TIME_STEP_SEC cfg\<rfloor>"
    using assms(1,2) by simp
  then have "int (length (targets ?g5)) \<le> targetCap cfg ?g5"
    using assms(3) by (simp add: targetCap_def)
  then have "int (length (targets (fillToCap cfg e (targetCap cfg ?g5) ?g5))) = targetCap cfg ?g5"
    by (rule fillToCap_length)
  then show ?thesis
    using assms(3) by (simp add: refillOnClear_def Let_def targetCap_def)
qed

lemma refillOnClear_avoids:
  assumes "targets g = []"
  shows "list_all (\<lambda>t. t = fallbackTarget cfg e \<or> \<not> rectsOverlap (player g) t)
           (targets (refillOnClear cfg e g))"
proof -
  let ?g5 = "g\<lparr> hp := clamp (hp g + HEALTH_REFILL_ON_CLEAR cfg) 0 (HEALTH_MAX cfg) \<rparr>"
  have "list_all (\<lambda>t. t = fallbackTarget cfg e \<or> \<not> rectsOverlap (player g) t)
          (targets (fillToCap cfg e (targetCap cfg ?g5) ?g5))"
    using assms by (intro fillToCap_avoids) simp_all
  then show ?thesis
    using assms by (simp add: refillOnClear_def Let_def)
qed

lemma refillOnClear_spawned:
  assumes "targets g = []"
  shows "list_all (\<lambda>t. \<exists>m. t = fst (spawnAvoidingPlayer cfg e (player g) m))
           (targets (refillOnClear cfg e g))"
proof -
  let ?g5 = "g\<lparr> hp := clamp (hp g + HEALTH_REFILL_ON_CLEAR cfg) 0 (HEALTH_MAX cfg) \<rparr>"
  have "list_all (\<lambda>t. \<exists>m. t = fst (spawnAvoidingPlayer cfg e (player g) m))
          (targets (fillToCap cfg e (targetCap cfg ?g5) ?g5))"
    using assms by (intro fillToCap_spawned) simp_all
  then show ?thesis
    using assms by (simp add: refillOnClear_def Let_def)
qed

lemma refillOnClear_first:
  assumes "0 < TIME_STEP_SEC cfg" and "0 \<le> elapsed g" and "targets g = []"
  shows "targets (refillOnClear cfg e g) ! 0 = fst (spawnAvoidingPlayer cfg e (player g) (rng g))"
proof -
  let ?g5 = "g\<lparr> hp := clamp (hp g + HEALTH_REFILL_ON_CLEAR cfg) 0 (HEALTH_MAX cfg) \<rparr>"
  have "0 \<le> \<lfloor>elapsed g / TIME_STEP_SEC cfg\<rfloor>"
    using assms(1,2) by simp
  then have "0 < 1 + \<lfloor>elapsed g / TIME_STEP_SEC cfg\<rfloor>"
    by linarith
  then have "0 < targetCap cfg ?g5"
    by (simp only: targetCap_def) simp
  then have "targets (fillToCap cfg e (targetCap cfg ?g5) ?g5) ! 0
               = fst (spawnAvoidingPlayer cfg e (player ?g5) (rng ?g5))"
    using assms(3) by (intro fillToCap_first) simp_all
  then show ?thesis
    using assms(3) by (simp add: refillOnClear_def Let_def)
qed

section \<open>One tick, evaluated\<close>

lemma aiMove_slow:
  assumes "hypot (t_vx t + fst a * 600 * dt) (t_vy t + snd a * 600 * dt) \<le> 100"
  shows "aiMove CFG (maxV CFG b) a dt t =
           t\<lparr> t_vx := t_vx t + fst a * 600 * dt, t_vy := t_vy t + snd a * 600 * dt,
              r_x := r_x t + (t_vx t + fst a * 600 * dt) * dt,
              r_y := r_y t + (t_vy t + snd a * 600 * dt) * dt \<rparr>"
proof -
  let ?t1 = "t\<lparr> t_vx := t_vx t + fst a * 600 * dt, t_vy := t_vy t + snd a * 600 * dt \<rparr>"
  have "clampSpeed (maxV CFG b) ?t1 = ?t1"
    using maxV_CFG(1) [of b] assms by (intro clampSpeed_slow) simp_all
  then show ?thesis
    by (simp add: aiMove_def Let_def CFG_def)
qed

lemmas demo_defs = demo_pass_def demo_game_def target_at_def demo_heat_def demo_env_def
  cold_grid_def demo_player_def warm_heat_def ai_idle_def

lemmas heat_defs = heatmapTick_def heatmapEnsure_def heatmapIdx_def heatmapSample_def
  gridAdd_def gridGet_def AI_PROFILE_def

lemma demo_prepare1:
  "aiPrepare demo_env 1 demo_pass = demo_pass\<lparr> HEAT := warm_heat (13 / 5) \<rparr>"
  by (simp add: aiPrepare_def aiInit_def aiAssignSectors_def demo_defs heat_defs Let_def)

lemma demo_steer1:
  "aiSteer demo_env (1 / 100) 1 (demo_pass\<lparr> HEAT := warm_heat (13 / 5) \<rparr>) ai_idle =
     ((ai_idle, \<lparr> b_sx = 9 / 10, b_sy = 0, b_d = 1, b_cx = 280, b_cy = 100 \<rparr>, 0),
      warm_heat (13 / 5))"
  by (simp add: aiSteer_def aiPredictPlayer_def readInput_def aiSteerBase_def sepStep_def
      aiNearEdges_def aiHeatmapBias_def aiApplyDispersion_def nearEdge12_def aiSectorBias_def
      aiApplyJuke_def aiApplyPatrol_def demo_defs heat_defs AI_CFG_def Let_def
      hypot_axis_x hypot_axis_y or1_def)

lemma demo_integrate1:
  "aiIntegrate CFG demo_env (target_at 268 88) ai_idle
      \<lparr> b_sx = 9 / 10, b_sy = 0, b_d = 1, b_cx = 280, b_cy = 100 \<rparr> (1 / 100) 0 = (caught, 2)"
  by (simp add: aiIntegrate_def aiAdvance_def aiWander_def aiSmooth_def aiMove_slow
      aiBounds_def bounceLeft_def bounceTop_def bounceRight_def bounceBottom_def
      demo_defs AI_CFG_def Let_def hypot_axis_x hypot_axis_y or1_def caught_def)

lemma demo_pass_targets:
  "targets (demo_pass\<lparr> HEAT := h \<rparr>) ! 1 = target_at 268 88"
  "targets (demo_pass\<lparr> HEAT := h \<rparr>) = [target_at 208 88, target_at 268 88]"
  by (simp_all add: demo_pass_def demo_game_def)

lemma pair_nth: "[a, b] ! 1 = b" "[a, b] ! 0 = a" "[a] ! 0 = a"
  by simp_all

lemma target_at_ai: "t_ai (target_at a b) = Some ai_idle"
  by (simp add: target_at_def)

lemma demo_update1:
  "updateTargetAI CFG demo_env (1 / 100) 1 demo_pass =
     demo_pass\<lparr> targets := [target_at 208 88, caught], HEAT := warm_heat (13 / 5), rng := 2 \<rparr>"
proof -
  have "updateTargetAI CFG demo_env (1 / 100) 1 demo_pass =
          (demo_pass\<lparr> HEAT := warm_heat (13 / 5) \<rparr>)
            \<lparr> targets := [target_at 208 88, target_at 268 88][1 := caught],
               HEAT := warm_heat (13 / 5), rng := 2 \<rparr>"
    by (simp only: updateTargetAI_def demo_prepare1 Let_def demo_pass_targets pair_nth target_at_ai
          option.case demo_steer1 prod.case demo_integrate1)
  then show ?thesis
    by simp
qed

section \<open>How far a target moves in one update\<close>

lemma aiMove_pos:
  "r_x (aiMove cfg mv a dt t) = r_x t + t_vx (aiMove cfg mv a dt t) * dt"
  "r_y (aiMove cfg mv a dt t) = r_y t + t_vy (aiMove cfg mv a dt t) * dt"
  by (simp_all add: aiMove_def Let_def)

lemma aiMove_near:
  assumes "1 / 2 \<le> mv" and "0 \<le> dt"
  shows "\<bar>r_x (aiMove cfg mv a dt t) - r_x t\<bar> \<le> mv * (1 + 1 / 2 ^ 51) * dt"
    and "\<bar>r_y (aiMove cfg mv a dt t) - r_y t\<bar> \<le> mv * (1 + 1 / 2 ^ 51) * dt"
proof -
  let ?m = "aiMove cfg mv a dt t" and ?c = "mv * (1 + 1 / 2 ^ 51)"
  have sp: "hypot (t_vx ?m) (t_vy ?m) \<le> ?c"
    using assms(1) by (rule aiMove_speed)
  have "\<bar>t_vx ?m\<bar> \<le> ?c" "\<bar>t_vy ?m\<bar> \<le> ?c"
    using sp abs_le_hypot(1) [of "t_vx ?m" "t_vy ?m"] abs_le_hypot(2) [of "t_vy ?m" "t_vx ?m"]
    by linarith+
  then have "\<bar>t_vx ?m\<bar> * dt \<le> ?c * dt" "\<bar>t_vy ?m\<bar> * dt \<le> ?c * dt"
    using assms(2) by (simp_all only: mult_right_mono)
  moreover have "\<bar>r_x ?m - r_x t\<bar> = \<bar>t_vx ?m\<bar> * dt" "\<bar>r_y ?m - r_y t\<bar> = \<bar>t_vy ?m\<bar> * dt"
    using assms(2) by (simp_all add: aiMove_pos abs_mult)
  ultimately show "\<bar>r_x ?m - r_x t\<bar> \<le> ?c * dt" "\<bar>r_y ?m - r_y t\<bar> \<le> ?c * dt"
    by (simp_all only:)
qed

lemma aiIntegrate_near:
  assumes "1 \<le> TARGET_MAX_SPEED cfg" and "0 \<le> dt" and "in_arena e t"
  shows "\<bar>r_x (fst (aiIntegrate cfg e t s b dt n)) - r_x t\<bar> \<le> maxV cfg b * (1 + 1 / 2 ^ 51) * dt"
    and "\<bar>r_y (fst (aiIntegrate cfg e t s b dt n)) - r_y t\<bar> \<le> maxV cfg b * (1 + 1 / 2 ^ 51) * dt"
proof -
  let ?m = "fst (aiAdvance cfg e t s b dt n)" and ?c = "maxV cfg b * (1 + 1 / 2 ^ 51)"
  have mv: "1 / 2 \<le> maxV cfg b"
    using assms(1) by (rule maxV_bounds(3))
  have near: "\<bar>r_x ?m - r_x t\<bar> \<le> ?c * dt" "\<bar>r_y ?m - r_y t\<bar> \<le> ?c * dt"
    unfolding aiAdvance_target using mv assms(2) by (rule aiMove_near)+
  have ar: "0 \<le> r_x t" "r_x t \<le> canvas_width e - r_w t" "0 \<le> r_y t" "r_y t \<le> canvas_height e - r_h t"
    using assms(3) by (simp_all add: in_arena_def)
  have "\<bar>min (canvas_width e - r_w t) (max 0 (r_x ?m)) - r_x t\<bar> \<le> \<bar>r_x ?m - r_x t\<bar>"
    using ar(1,2) by (simp add: min_def max_def)
  then show "\<bar>r_x (fst (aiIntegrate cfg e t s b dt n)) - r_x t\<bar> \<le> ?c * dt"
    using near(1) by (simp add: aiIntegrate_target aiBounds_pos)
  have "\<bar>min (canvas_height e - r_h t) (max 0 (r_y ?m)) - r_y t\<bar> \<le> \<bar>r_y ?m - r_y t\<bar>"
    using ar(3,4) by (simp add: min_def max_def)
  then show "\<bar>r_y (fst (aiIntegrate cfg e t s b dt n)) - r_y t\<bar> \<le> ?c * dt"
    using near(2) by (simp add: aiIntegrate_target aiBounds_pos)
qed

lemma aiIntegrate_size [simp]:
  "r_w (fst (aiIntegrate cfg e t s b dt n)) = r_w t" "r_h (fst (aiIntegrate cfg e t s b dt n)) = r_h t"
  by (simp_all add: aiIntegrate_target)

lemmas ai_defs = aiPredictPlayer_def
  readInput_def aiSteerBase_def sepStep_def aiNearEdges_def aiHeatmapBias_def
  aiApplyDispersion_def nearEdge12_def aiSectorBias_def aiApplyJuke_def aiApplyPatrol_def
  AI_CFG_def Let_def hypot_axis_x hypot_axis_y or1_def hypot_zero_iff

lemma demo_collect1: "collectStep CFG demo_env (1 / 100) 1 demo_pass = after_capture"
  unfolding collectStep_def demo_update1
  by (simp add: rectsOverlap_def caught_def demo_defs after_capture_def splice1_def)

lemma demo_mark1: "markStep CFG demo_env (1 / 100) 1 (demo_pass, []) = (after_mark, [1])"
  unfolding markStep_def fst_conv snd_conv demo_update1
  by (simp add: rectsOverlap_def caught_def demo_defs after_mark_def)

lemma demo_prepare0_source:
  "aiPrepare demo_env 0 after_capture = after_capture\<lparr> HEAT := warm_heat (1261 / 250) \<rparr>"
  by (simp add: aiPrepare_def aiInit_def aiAssignSectors_def demo_defs heat_defs Let_def
      after_capture_def)

lemma demo_prepare0_deferred:
  "aiPrepare demo_env 0 after_mark = after_mark\<lparr> HEAT := warm_heat (1261 / 250) \<rparr>"
  by (simp add: aiPrepare_def aiInit_def aiAssignSectors_def demo_defs heat_defs Let_def
      after_mark_def caught_def)

lemma demo_steer0_source:
  "aiSteer demo_env (1 / 100) 0 (after_capture\<lparr> HEAT := warm_heat (1261 / 250) \<rparr>) ai_idle =
     ((ai_idle, base_alone, 2), warm_heat (1261 / 250))"
  by (simp add: aiSteer_def ai_defs demo_defs heat_defs after_capture_def base_alone_def)

lemma demo_steer0_deferred:
  "aiSteer demo_env (1 / 100) 0 (after_mark\<lparr> HEAT := warm_heat (1261 / 250) \<rparr>) ai_idle =
     ((ai_idle, base_crowded, 2), warm_heat (1261 / 250))"
  by (simp add: aiSteer_def ai_defs demo_defs heat_defs after_mark_def caught_def base_crowded_def)

lemma after_targets:
  "targets (after_capture\<lparr> HEAT := h \<rparr>) = [target_at 208 88]"
  "targets (after_mark\<lparr> HEAT := h \<rparr>) = [target_at 208 88, caught]"
  by (simp_all add: after_capture_def after_mark_def)

lemma demo_update0_source:
  "updateTargetAI CFG demo_env (1 / 100) 0 after_capture =
     after_capture
       \<lparr> targets := [fst (aiIntegrate CFG demo_env (target_at 208 88) ai_idle base_alone (1 / 100) 2)],
          HEAT := warm_heat (1261 / 250),
          rng := snd (aiIntegrate CFG demo_env (target_at 208 88) ai_idle base_alone (1 / 100) 2) \<rparr>"
proof -
  have "updateTargetAI CFG demo_env (1 / 100) 0 after_capture =
     (after_capture\<lparr> HEAT := warm_heat (1261 / 250) \<rparr>)
       \<lparr> targets := [target_at 208 88]
            [0 := fst (aiIntegrate CFG demo_env (target_at 208 88) ai_idle base_alone (1 / 100) 2)],
          HEAT := warm_heat (1261 / 250),
          rng := snd (aiIntegrate CFG demo_env (target_at 208 88) ai_idle base_alone (1 / 100) 2) \<rparr>"
    by (simp only: updateTargetAI_def demo_prepare0_source Let_def after_targets pair_nth
          target_at_ai option.case demo_steer0_source prod.case case_prod_beta fst_conv snd_conv)
  then show ?thesis
    by simp
qed

lemma demo_update0_deferred:
  "updateTargetAI CFG demo_env (1 / 100) 0 after_mark =
     after_mark
       \<lparr> targets := [fst (aiIntegrate CFG demo_env (target_at 208 88) ai_idle base_crowded (1 / 100) 2),
                      caught],
          HEAT := warm_heat (1261 / 250),
          rng := snd (aiIntegrate CFG demo_env (target_at 208 88) ai_idle base_crowded (1 / 100) 2) \<rparr>"
proof -
  have "updateTargetAI CFG demo_env (1 / 100) 0 after_mark =
     (after_mark\<lparr> HEAT := warm_heat (1261 / 250) \<rparr>)
       \<lparr> targets := [target_at 208 88, caught]
            [0 := fst (aiIntegrate CFG demo_env (target_at 208 88) ai_idle base_crowded (1 / 100) 2)],
          HEAT := warm_heat (1261 / 250),
          rng := snd (aiIntegrate CFG demo_env (target_at 208 88) ai_idle base_crowded (1 / 100) 2) \<rparr>"
    by (simp only: updateTargetAI_def demo_prepare0_deferred Let_def after_targets pair_nth
          target_at_ai option.case demo_steer0_deferred prod.case case_prod_beta fst_conv snd_conv)
  then show ?thesis
    by simp
qed

lemma demo_escape:
  "\<not> rectsOverlap demo_player (fst (aiIntegrate CFG demo_env (target_at 208 88) s b (1 / 100) n))"
proof -
  let ?t = "fst (aiIntegrate CFG demo_env (target_at 208 88) s b (1 / 100) n)"
  have "in_arena demo_env (target_at 208 88)"
    by (simp add: in_arena_def target_at_def demo_env_def)
  then have "\<bar>r_x ?t - r_x (target_at 208 88)\<bar> \<le> maxV CFG b * (1 + 1 / 2 ^ 51) * (1 / 100)"
    by (intro aiIntegrate_near) (simp_all add: CFG_def)
  moreover have "maxV CFG b * (1 + 1 / 2 ^ 51) * (1 / 100) \<le> 3"
    using maxV_CFG(2) [of b] by simp
  moreover have "r_x (target_at 208 88) = 208"
    by (simp add: target_at_def)
  ultimately have "r_x ?t \<le> 208 + 3"
    by linarith
  moreover have "r_w (target_at 208 88) = 24"
    by (simp add: target_at_def)
  ultimately show ?thesis
    by (simp add: rectsOverlap_def demo_player_def)
qed

lemma demo_lastSteerY:
  "map_option lastSteerY (t_ai (fst (aiIntegrate CFG demo_env t ai_idle base_alone (1 / 100) 2)))
     = Some (- (17 / 26) / hypot (- (434179 / 650000)) (- (17 / 26)) * (2 / 5))"
  "map_option lastSteerY (t_ai (fst (aiIntegrate CFG demo_env t ai_idle base_crowded (1 / 100) 2)))
     = Some (- (17 / 26) / hypot (- (1019179 / 650000)) (- (17 / 26)) * (2 / 5))"
  by (simp_all add: aiIntegrate_target aiAdvance_state aiWander_def aiSmooth_def Let_def
      base_alone_def base_crowded_def ai_idle_def demo_env_def AI_CFG_def or1_def hypot_zero_iff)

lemma demo_hypot_differ:
  "hypot (- (434179 / 650000)) (- (17 / 26)) \<noteq> hypot (- (1019179 / 650000)) (- (17 / 26))"
  by (simp add: hypot_def)

lemma demo_move: "movePlayer demo_env (1 / 100) demo_player = demo_player"
  by (simp add: movePlayer_def readInput_def demo_env_def demo_player_def clamp_def)

lemma demo_drain: "drainHealth CFG (1 / 100) demo_game = demo_pass"
  by (simp add: drainHealth_def demo_pass_def demo_game_def CFG_def clamp_def Let_def)

lemma demo_pass_start:
  "alive demo_game" "\<not> hp demo_pass \<le> 0" "player demo_pass = demo_player"
  "demo_pass\<lparr> player := demo_player \<rparr> = demo_pass" "length (targets demo_pass) = 2"
  "player (after_capture\<lparr> targets := ts, HEAT := h, rng := k \<rparr>) = demo_player"
  "player (after_mark\<lparr> targets := ts, HEAT := h, rng := k \<rparr>) = demo_player"
  by (simp_all add: demo_game_def demo_pass_def after_capture_def after_mark_def)

lemma demo_collect0:
  "collectStep CFG demo_env (1 / 100) 0 after_capture =
     updateTargetAI CFG demo_env (1 / 100) 0 after_capture"
  unfolding collectStep_def Let_def demo_update0_source
  by (simp add: demo_pass_start demo_escape)

lemma demo_mark0:
  "markStep CFG demo_env (1 / 100) 0 (after_mark, [1]) =
     (updateTargetAI CFG demo_env (1 / 100) 0 after_mark, [1])"
  unfolding markStep_def Let_def fst_conv snd_conv demo_update0_deferred
  by (simp add: demo_pass_start demo_escape)

lemma demo_tick_source:
  "targets (update CFG demo_env (1 / 100) demo_game) =
     [fst (aiIntegrate CFG demo_env (target_at 208 88) ai_idle base_alone (1 / 100) 2)]"
proof -
  have "collectLoop CFG demo_env (1 / 100) 2 demo_pass =
          updateTargetAI CFG demo_env (1 / 100) 0 after_capture"
    by (simp add: numeral_2_eq_2 demo_collect1 [simplified] demo_collect0)
  then show ?thesis
    by (simp add: update_def Let_def demo_drain demo_move demo_pass_start refillOnClear_def
        demo_update0_source)
qed

lemma demo_tick_deferred:
  "targets (update_deferred CFG demo_env (1 / 100) demo_game) =
     [fst (aiIntegrate CFG demo_env (target_at 208 88) ai_idle base_crowded (1 / 100) 2)]"
proof -
  have "markLoop CFG demo_env (1 / 100) 2 (demo_pass, []) =
          (updateTargetAI CFG demo_env (1 / 100) 0 after_mark, [1])"
    by (simp add: numeral_2_eq_2 demo_mark1 [simplified] demo_mark0 [simplified])
  then have "targets (markThenCompact CFG demo_env (1 / 100) demo_pass) =
          [fst (aiIntegrate CFG demo_env (target_at 208 88) ai_idle base_crowded (1 / 100) 2)]"
    by (simp add: markThenCompact_def Let_def demo_pass_start demo_update0_deferred compact_def)
  then show ?thesis
    by (simp add: update_deferred_def Let_def demo_drain demo_move demo_pass_start
        refillOnClear_def)
qed

text \<open>
  C9 as stated fails. The player stands on the target of index 1, which is captured and
  spliced out before the target of index 0 is updated; that one, 60 pixels away, then feels no
  separation force. After the tick its stored steering direction differs from the one that
  mark-then-compact gives.
\<close>

theorem splice_is_not_deferred:
  "update CFG demo_env (1 / 100) demo_game \<noteq> update_deferred CFG demo_env (1 / 100) demo_game"
proof
  assume "update CFG demo_env (1 / 100) demo_game = update_deferred CFG demo_env (1 / 100) demo_game"
  then have "targets (update CFG demo_env (1 / 100) demo_game)
               = targets (update_deferred CFG demo_env (1 / 100) demo_game)"
    by simp
  then have "fst (aiIntegrate CFG demo_env (target_at 208 88) ai_idle base_alone (1 / 100) 2)
               = fst (aiIntegrate CFG demo_env (target_at 208 88) ai_idle base_crowded (1 / 100) 2)"
    by (simp add: demo_tick_source demo_tick_deferred)
  then have "map_option lastSteerY
                 (t_ai (fst (aiIntegrate CFG demo_env (target_at 208 88) ai_idle base_alone (1 / 100) 2)))
               = map_option lastSteerY
                 (t_ai (fst (aiIntegrate CFG demo_env (target_at 208 88) ai_idle base_crowded (1 / 100) 2)))"
    by simp
  then show False
    using demo_hypot_differ by (simp add: demo_lastSteerY)
qed

section \<open>Captures are spliced out at once\<close>

lemma compact_Nil [simp]: "compact [] xs = xs"
  by (simp add: compact_def)

lemma markStep_marks: "snd (markStep cfg e dt i (g, m)) = [] \<Longrightarrow> m = []"
  by (simp add: markStep_def Let_def split: if_splits)

lemma markLoop_marks: "snd (markLoop cfg e dt n (g, m)) = [] \<Longrightarrow> m = []"
proof (induction n arbitrary: g m)
  case 0
  then show ?case by simp
next
  case (Suc n)
  obtain g' m' where st: "markStep cfg e dt n (g, m) = (g', m')"
    by (cases "markStep cfg e dt n (g, m)")
  then have "m' = []"
    using Suc by simp
  then show ?case
    using st markStep_marks [of cfg e dt n g m] by simp
qed

lemma markStep_no_capture:
  "snd (markStep cfg e dt i (g, [])) = [] \<Longrightarrow>
     markStep cfg e dt i (g, []) = (collectStep cfg e dt i g, [])"
  by (simp add: markStep_def collectStep_def Let_def split: if_splits)

lemma collectLoop_markLoop:
  "snd (markLoop cfg e dt n (g, [])) = [] \<Longrightarrow>
     collectLoop cfg e dt n g = fst (markLoop cfg e dt n (g, []))"
proof (induction n arbitrary: g)
  case 0
  then show ?case by simp
next
  case (Suc n)
  obtain g' m' where st: "markStep cfg e dt n (g, []) = (g', m')"
    by (cases "markStep cfg e dt n (g, [])")
  have loop: "snd (markLoop cfg e dt n (g', m')) = []"
    using Suc.prems st by simp
  then have m': "m' = []"
    by (rule markLoop_marks)
  then have "markStep cfg e dt n (g, []) = (collectStep cfg e dt n g, [])"
    using st markStep_no_capture [of cfg e dt n g] by simp
  then have g': "g' = collectStep cfg e dt n g"
    using st by simp
  show ?case
    using Suc.IH [of g'] loop st m' g' by simp
qed

lemma collectStep_targets:
  "targets (collectStep cfg e dt i g) =
     (if rectsOverlap (player g) (targets (updateTargetAI cfg e dt i g) ! i)
      then splice1 i (targets (updateTargetAI cfg e dt i g))
      else targets (updateTargetAI cfg e dt i g))"
  by (simp add: collectStep_def Let_def updateTargetAI_frame)

lemma length_splice1_le: "length (splice1 i xs) \<le> length xs"
  by (simp add: splice1_def)

text \<open>
  C9, as amended. The update of an agent neither removes nor inserts agents. A captured agent
  is removed right after its own update, before the agents of lower index are updated (the
  pass runs from the last index down to 0); the collection never grows during the pass. When
  the pass captures no agent, it gives the state that mark-then-compact gives, and so does
  the whole tick.
\<close>

theorem capture_splices_at_once:
  "length (targets (updateTargetAI cfg e dt i g)) = length (targets g) \<and>
   targets (collectStep cfg e dt i g) =
     (if rectsOverlap (player g) (targets (updateTargetAI cfg e dt i g) ! i)
      then splice1 i (targets (updateTargetAI cfg e dt i g))
      else targets (updateTargetAI cfg e dt i g)) \<and>
   length (targets (collectStep cfg e dt i g)) \<le> length (targets g) \<and>
   (snd (markLoop cfg e dt n (g, [])) = [] \<longrightarrow>
      collectLoop cfg e dt n g = fst (markLoop cfg e dt n (g, []))) \<and>
   (snd (markLoop cfg e dt (length (targets g)) (g, [])) = [] \<longrightarrow>
      collectLoop cfg e dt (length (targets g)) g = markThenCompact cfg e dt g) \<and>
   (0 < TIME_STEP_SEC cfg \<and>
    snd (markLoop cfg e dt (length (targets g))
          ((drainHealth cfg dt g)\<lparr> player := movePlayer e dt (player g) \<rparr>, [])) = [] \<longrightarrow>
      update cfg e dt g = update_deferred cfg e dt g)"
proof -
  have len: "length (targets (collectStep cfg e dt i g)) \<le> length (targets g)"
    using length_splice1_le [of i "targets (updateTargetAI cfg e dt i g)"]
    by (simp add: collectStep_targets)
  have pass: "snd (markLoop cfg e dt (length (targets h)) (h, [])) = [] \<longrightarrow>
      collectLoop cfg e dt (length (targets h)) h = markThenCompact cfg e dt h" for h
    by (simp add: markThenCompact_def Let_def collectLoop_markLoop)
  have tick: "snd (markLoop cfg e dt (length (targets g))
          ((drainHealth cfg dt g)\<lparr> player := movePlayer e dt (player g) \<rparr>, [])) = [] \<longrightarrow>
      update cfg e dt g = update_deferred cfg e dt g"
    using pass [of "(drainHealth cfg dt g)\<lparr> player := movePlayer e dt (player g) \<rparr>"]
    by (simp add: update_def update_deferred_def Let_def drainHealth_def)
  show ?thesis
    using len pass [of g] tick collectLoop_markLoop [of cfg e dt n g]
    by (simp add: collectStep_targets)
qed

theorem capture_splices_at_once_witness:
  "snd (markLoop CFG demo_env (1 / 100) 1 (after_capture, [])) = [] \<and>
   collectLoop CFG demo_env (1 / 100) 1 after_capture
     = fst (markLoop CFG demo_env (1 / 100) 1 (after_capture, []))"
proof -
  have h: "snd (markLoop CFG demo_env (1 / 100) 1 (after_capture, [])) = []"
    by (simp add: markStep_def Let_def demo_update0_source demo_pass_start demo_escape)
  show ?thesis
    using h capture_splices_at_once [of CFG demo_env "1 / 100" 0 after_capture 1]
    by blast
qed

section \<open>A tick that clears the arena\<close>

lemma solo_prepare:
  "aiPrepare demo_env 0 solo_pass = solo_pass\<lparr> HEAT := warm_heat (13 / 5) \<rparr>"
  by (simp add: aiPrepare_def aiInit_def aiAssignSectors_def demo_defs heat_defs Let_def
      solo_pass_def)

lemma solo_steer:
  "aiSteer demo_env (1 / 100) 0 (solo_pass\<lparr> HEAT := warm_heat (13 / 5) \<rparr>) ai_idle =
     ((ai_idle, \<lparr> b_sx = 0, b_sy = 0, b_d = 1, b_cx = 280, b_cy = 100 \<rparr>, 0),
      warm_heat (13 / 5))"
  by (simp add: aiSteer_def ai_defs demo_defs heat_defs solo_pass_def)

lemma solo_integrate:
  "aiIntegrate CFG demo_env (target_at 268 88) ai_idle
      \<lparr> b_sx = 0, b_sy = 0, b_d = 1, b_cx = 280, b_cy = 100 \<rparr> (1 / 100) 0 = (caught, 2)"
  by (simp add: aiIntegrate_def aiAdvance_def aiWander_def aiSmooth_def aiMove_slow
      aiBounds_def bounceLeft_def bounceTop_def bounceRight_def bounceBottom_def
      demo_defs AI_CFG_def Let_def hypot_axis_x hypot_axis_y or1_def caught_def)

lemma solo_targets: "targets (solo_pass\<lparr> HEAT := h \<rparr>) = [target_at 268 88]"
  by (simp add: solo_pass_def)

lemma solo_update:
  "updateTargetAI CFG demo_env (1 / 100) 0 solo_pass =
     solo_pass\<lparr> targets := [caught], HEAT := warm_heat (13 / 5), rng := 2 \<rparr>"
proof -
  have "updateTargetAI CFG demo_env (1 / 100) 0 solo_pass =
          (solo_pass\<lparr> HEAT := warm_heat (13 / 5) \<rparr>)
            \<lparr> targets := [target_at 268 88][0 := caught],
               HEAT := warm_heat (13 / 5), rng := 2 \<rparr>"
    by (simp only: updateTargetAI_def solo_prepare Let_def solo_targets pair_nth target_at_ai
          option.case solo_steer prod.case solo_integrate)
  then show ?thesis
    by simp
qed

lemma solo_collect:
  "targets (collectLoop CFG demo_env (1 / 100) 1 solo_pass) = []"
  unfolding One_nat_def collectLoop.simps collectStep_def Let_def solo_update
  by (simp add: rectsOverlap_def caught_def demo_defs solo_pass_def splice1_def)

text \<open>
  C4. When the capture pass leaves no target (\<open>g\<close> is the state after the pass), the refill
  brings the number of targets to the cap of the elapsed time at that moment. Each of the
  new targets is the result of a spawn for the player of that moment, the first of them of the
  spawn at the random draws reached by then, and each of them either does not overlap the
  player or is the fallback target. A spawn returns the first of its 20 attempts that does not
  overlap the player, and the fallback target, at \<open>(width - size - 10, height - size - 10)\<close>,
  when all of its 20 attempts overlap the player. A tick of a live session whose health stays
  positive is the refill applied to the state after the pass.
\<close>

theorem refill_to_cap_after_clear:
  assumes "0 < TIME_STEP_SEC cfg" and "0 \<le> elapsed g" and "targets g = []"
  shows "int (length (targets (refillOnClear cfg e g))) = targetCap cfg g \<and>
         list_all (\<lambda>t. t = fallbackTarget cfg e \<or> \<not> rectsOverlap (player g) t)
           (targets (refillOnClear cfg e g)) \<and>
         (fst (spawnAvoidingPlayer cfg e p n) = fallbackTarget cfg e \<or>
            \<not> rectsOverlap p (fst (spawnAvoidingPlayer cfg e p n))) \<and>
         ((\<forall>j<20. rectsOverlap p (fst (makeTarget cfg e (n + 2 * j)))) \<longrightarrow>
            spawnAvoidingPlayer cfg e p n = (fallbackTarget cfg e, n + 40)) \<and>
         r_x (fallbackTarget cfg e) = canvas_width e - TARGET_SIZE cfg - 10 \<and>
         r_y (fallbackTarget cfg e) = canvas_height e - TARGET_SIZE cfg - 10 \<and>
         (alive g0 \<and> 0 < hp (drainHealth cfg dt g0) \<longrightarrow>
            update cfg e dt g0 =
              refillOnClear cfg e
                (collectLoop cfg e dt (length (targets g0))
                   ((drainHealth cfg dt g0)\<lparr> player := movePlayer e dt (player g0) \<rparr>))) \<and>
         (\<forall>j<20. (\<forall>i<j. rectsOverlap p (fst (makeTarget cfg e (n + 2 * i)))) \<and>
                  \<not> rectsOverlap p (fst (makeTarget cfg e (n + 2 * j))) \<longrightarrow>
            spawnAvoidingPlayer cfg e p n = makeTarget cfg e (n + 2 * j)) \<and>
         list_all (\<lambda>t. \<exists>m. t = fst (spawnAvoidingPlayer cfg e (player g) m))
           (targets (refillOnClear cfg e g)) \<and>
         targets (refillOnClear cfg e g) ! 0 = fst (spawnAvoidingPlayer cfg e (player g) (rng g))"
proof -
  have spawn: "fst (spawnAvoidingPlayer cfg e p n) = fallbackTarget cfg e \<or>
            \<not> rectsOverlap p (fst (spawnAvoidingPlayer cfg e p n))"
    unfolding spawnAvoidingPlayer_def by (rule spawnTry_avoids)
  have fb: "(\<forall>j<20. rectsOverlap p (fst (makeTarget cfg e (n + 2 * j)))) \<longrightarrow>
            spawnAvoidingPlayer cfg e p n = (fallbackTarget cfg e, n + 40)"
    using spawnTry_exhausted [of 20 p cfg e n] by (simp add: spawnAvoidingPlayer_def)
  have pos: "r_x (fallbackTarget cfg e) = canvas_width e - TARGET_SIZE cfg - 10 \<and>
         r_y (fallbackTarget cfg e) = canvas_height e - TARGET_SIZE cfg - 10"
    by (simp add: fallbackTarget_def)
  have tick: "alive g0 \<and> 0 < hp (drainHealth cfg dt g0) \<longrightarrow>
            update cfg e dt g0 =
              refillOnClear cfg e
                (collectLoop cfg e dt (length (targets g0))
                   ((drainHealth cfg dt g0)\<lparr> player := movePlayer e dt (player g0) \<rparr>))"
    by (simp add: update_def Let_def drainHealth_def)
  have free: "\<forall>j<20. (\<forall>i<j. rectsOverlap p (fst (makeTarget cfg e (n + 2 * i)))) \<and>
                  \<not> rectsOverlap p (fst (makeTarget cfg e (n + 2 * j))) \<longrightarrow>
            spawnAvoidingPlayer cfg e p n = makeTarget cfg e (n + 2 * j)"
    unfolding spawnAvoidingPlayer_def using spawnTry_first [of _ 20 p cfg e n] by blast
  have old: "int (length (targets (refillOnClear cfg e g))) = targetCap cfg g \<and>
         list_all (\<lambda>t. t = fallbackTarget cfg e \<or> \<not> rectsOverlap (player g) t)
           (targets (refillOnClear cfg e g))"
    using refillOnClear_length [OF assms] refillOnClear_avoids [OF assms(3)] by blast
  show ?thesis
    by (intro conjI old [THEN conjunct1] old [THEN conjunct2] spawn fb pos [THEN conjunct1]
        pos [THEN conjunct2] tick free refillOnClear_spawned [OF assms(3)]
        refillOnClear_first [OF assms])
qed

theorem refill_to_cap_after_clear_witness:
  "alive (demo_game\<lparr> targets := [target_at 268 88] \<rparr>) \<and>
   targets (collectLoop CFG demo_env (1 / 100) 1 solo_pass) = [] \<and>
   int (length (targets (update CFG demo_env (1 / 100) (demo_game\<lparr> targets := [target_at 268 88] \<rparr>)))) = 2 \<and>
   \<not> rectsOverlap demo_player (fst (makeTarget CFG demo_env 2)) \<and>
   spawnAvoidingPlayer CFG demo_env demo_player 2 = makeTarget CFG demo_env 2 \<and>
   r_x (fst (makeTarget CFG demo_env 2)) = 308 \<and> r_y (fst (makeTarget CFG demo_env 2)) = 228"
proof -
  let ?start = "demo_game\<lparr> targets := [target_at 268 88] \<rparr>"
  let ?cleared = "collectLoop CFG demo_env (1 / 100) 1 solo_pass"
  have h1: "0 < TIME_STEP_SEC CFG" by (simp add: CFG_def)
  have h2: "0 \<le> elapsed ?cleared"
    unfolding collectLoop_frame by (simp add: solo_pass_def demo_pass_def)
  have h3: "targets ?cleared = []" by (rule solo_collect)
  have a: "alive ?start" by (simp add: demo_game_def)
  have d: "drainHealth CFG (1 / 100) ?start = solo_pass"
    by (simp add: drainHealth_def solo_pass_def demo_pass_def demo_game_def CFG_def clamp_def Let_def)
  have p: "solo_pass\<lparr> player := movePlayer demo_env (1 / 100) (player ?start) \<rparr> = solo_pass"
    by (simp add: solo_pass_def demo_pass_def demo_game_def demo_move)
  have hp: "0 < hp (drainHealth CFG (1 / 100) ?start)"
    unfolding d by (simp add: solo_pass_def demo_pass_def)
  have c: "targetCap CFG ?cleared = 2"
    unfolding targetCap_def collectLoop_frame
    by (simp add: solo_pass_def demo_pass_def CFG_def)
  note inst = refill_to_cap_after_clear [OF h1 h2 h3, of demo_env demo_player 2 ?start "1 / 100"]
  have q: "(drainHealth CFG (1 / 100) ?start)
              \<lparr> player := movePlayer demo_env (1 / 100) (player ?start) \<rparr> = solo_pass"
    unfolding d by (rule p)
  have len: "length (targets ?start) = 1"
    by simp
  have "update CFG demo_env (1 / 100) ?start =
          refillOnClear CFG demo_env
            (collectLoop CFG demo_env (1 / 100) (length (targets ?start))
               ((drainHealth CFG (1 / 100) ?start)
                  \<lparr> player := movePlayer demo_env (1 / 100) (player ?start) \<rparr>))"
    using inst a hp by blast
  then have tick: "update CFG demo_env (1 / 100) ?start = refillOnClear CFG demo_env ?cleared"
    unfolding q len .
  have cap: "int (length (targets (refillOnClear CFG demo_env ?cleared))) = 2"
    using inst unfolding c by blast
  have free: "\<not> rectsOverlap demo_player (fst (makeTarget CFG demo_env 2))"
    and at: "r_x (fst (makeTarget CFG demo_env 2)) = 308" "r_y (fst (makeTarget CFG demo_env 2)) = 228"
    by (simp_all add: makeTarget_def rectsOverlap_def demo_env_def demo_player_def CFG_def)
  have "\<forall>j<20. (\<forall>i<j. rectsOverlap demo_player (fst (makeTarget CFG demo_env (2 + 2 * i)))) \<and>
                 \<not> rectsOverlap demo_player (fst (makeTarget CFG demo_env (2 + 2 * j))) \<longrightarrow>
           spawnAvoidingPlayer CFG demo_env demo_player 2 = makeTarget CFG demo_env (2 + 2 * j)"
    using inst by blast
  then have "spawnAvoidingPlayer CFG demo_env demo_player 2 = makeTarget CFG demo_env (2 + 2 * 0)"
    using free by (elim allE [of _ 0]) simp
  then have first: "spawnAvoidingPlayer CFG demo_env demo_player 2 = makeTarget CFG demo_env 2"
    by simp
  show ?thesis
    unfolding tick by (intro conjI a h3 cap free first at)
qed

section \<open>Heat avoidance\<close>

lemma heatmapEnsure_idem: "heatmapEnsure e (heatmapEnsure e hs) = heatmapEnsure e hs"
  by (simp add: heatmapEnsure_def heatmapInit_def AI_PROFILE_def Let_def)

lemma heatmapSample_snd: "snd (heatmapSample e hs a b) = heatmapEnsure e hs"
  by (simp add: heatmapSample_def Let_def split: option.splits)

lemma heatmapSample_ensured:
  "fst (heatmapSample e (heatmapEnsure e hs) a b) = fst (heatmapSample e hs a b)"
  by (simp add: heatmapSample_def Let_def heatmapEnsure_idem)

lemma aiHeatmapBias_x:
  "grid hs \<noteq> None \<Longrightarrow>
     b_sx (fst (aiHeatmapBias e hs t b)) = b_sx b + fst (heatGradientBias e hs t)"
  by (auto simp add: aiHeatmapBias_def heatGradientBias_def Let_def case_prod_beta
      heatmapSample_snd heatmapSample_ensured heatmapEnsure_idem)

lemma aiHeatmapBias_y:
  "grid hs \<noteq> None \<Longrightarrow>
     b_sy (fst (aiHeatmapBias e hs t b)) =
       b_sy b + (- fst (heatmapSample e hs (r_y t + r_h t / 2 + 24) (r_x t + r_w t / 2)))
                  * (2 / 100) * HEATMAP_BIAS AI_PROFILE"
  by (auto simp add: aiHeatmapBias_def Let_def case_prod_beta
      heatmapSample_snd heatmapSample_ensured heatmapEnsure_idem)

text \<open>
  C7: the code at the failing input. The x term of \<open>aiHeatmapBias\<close> is the finite difference
  of the claim, for every state. The y term is one sample, taken at the point with the
  coordinates swapped: with heat only in the cell below the target at \<open>(288, 128)\<close>, the
  finite difference asks for a push of \<open>- 3 / 50\<close> and the code leaves \<open>sy\<close> as it was.
\<close>

theorem heat_bias_y_is_one_swapped_sample:
  "b_sx (fst (aiHeatmapBias demo_env heat_below (target_at 288 128) b))
     = b_sx b + fst (heatGradientBias demo_env heat_below (target_at 288 128)) \<and>
   b_sy (fst (aiHeatmapBias demo_env heat_below (target_at 288 128) b)) = b_sy b \<and>
   snd (heatGradientBias demo_env heat_below (target_at 288 128)) = - (3 / 50)"
proof -
  have g: "grid heat_below \<noteq> None"
    by (simp add: heat_below_def)
  have "b_sy (fst (aiHeatmapBias demo_env heat_below (target_at 288 128) b)) = b_sy b"
    unfolding aiHeatmapBias_y [OF g]
    by (simp add: heat_defs heat_below_def target_at_def demo_env_def)
  moreover have "snd (heatGradientBias demo_env heat_below (target_at 288 128)) = - (3 / 50)"
    by (simp add: heatGradientBias_def heat_defs heat_below_def target_at_def demo_env_def Let_def)
  ultimately show ?thesis
    using aiHeatmapBias_x [OF g] by simp
qed

end
